theory Spec2Isabelle
  imports Complex_Main "HOL-Library.AList" "HOL-Library.Multiset"
begin

section \<open>Gateway routing core of x402-open\<close>

text \<open>
  A shallow embedding of the gateway core (\<^verbatim>\<open>gateway/core.ts\<close>) and of the verify and
  settle handlers of the HTTP gateway adapter (\<^verbatim>\<open>httpGateway.ts\<close>; the Hono adapter
  runs the same algorithm).

  \<^item> \<^verbatim>\<open>Date.now()\<close> is an explicit \<open>int\<close> argument (milliseconds).
  \<^item> A JavaScript \<^verbatim>\<open>Map\<close> is an association list in insertion order: \<^verbatim>\<open>set\<close> on a present
    key replaces the value in place, on an absent key appends; \<^verbatim>\<open>size\<close> is the length.
    A JavaScript \<^verbatim>\<open>Set\<close> of strings is a list without repetition, in insertion order.
  \<^item> The network (\<^verbatim>\<open>postJson\<close>, \<^verbatim>\<open>fetch\<close>) is a function from the request to its
    outcome; a rejected promise (timeout, connection error) is a constructor of the
    outcome type. Handlers return the list of URLs they called, in call order.
  \<^item> \<^verbatim>\<open>Math.random()\<close> is an explicit real argument \<open>u\<close> with \<open>0 \<le> u < 1\<close>. The
    platform's \<^verbatim>\<open>Array.prototype.sort\<close> under the random comparator (\<open>shuffle\<close>),
    \<^verbatim>\<open>String.prototype.toLowerCase\<close> (\<open>lc\<close>) and \<^verbatim>\<open>JSON.stringify\<close> (\<open>stringify\<close>) are
    function arguments: what is proved holds for every such function with the property
    a theorem names.
  \<^item> A thrown exception is a value: a method of the sticky router returns the outcome,
    \<open>Inl\<close> the error or \<open>Inr\<close> the result, beside the router it leaves.
  \<^item> The cleanup timers (\<^verbatim>\<open>setInterval\<close>) are not modelled; \<open>cleanup\<close> is the function
    the timer calls.
  \<^item> A request body has the fields of the TypeScript type \<^verbatim>\<open>ForwardBody\<close>, except that
    the payer \<^verbatim>\<open>from\<close>, which the gateway lower-cases without a check, is any JSON
    value; response bodies are JSON values. No step of the verify handler outside its
    inner \<^verbatim>\<open>try\<close> throws, so the handler's catch-all (status 500) has no counterpart
    here.
\<close>

subsection \<open>JSON values\<close>

text \<open>
  What \<^verbatim>\<open>JSON.parse\<close> yields, plus \<^verbatim>\<open>undefined\<close> (which \<^verbatim>\<open>postJson\<close> returns for an
  empty response text). An object lists its properties in order, each name once (of a
  repeated name \<^verbatim>\<open>JSON.parse\<close> keeps the last value).
\<close>

datatype jsval =
    JUndefined
  | JNull
  | JBool bool
  | JNum real
  | JStr string
  | JArr "jsval list"
  | JObj "(string \<times> jsval) list"

text \<open>JavaScript truthiness, as \<^verbatim>\<open>if (v)\<close> and \<^verbatim>\<open>a && b\<close> test it.\<close>

fun truthy :: "jsval \<Rightarrow> bool" where
  "truthy JUndefined = False"
| "truthy JNull = False"
| "truthy (JBool b) = b"
| "truthy (JNum n) = (n \<noteq> 0)"
| "truthy (JStr s) = (s \<noteq> [])"
| "truthy (JArr xs) = True"
| "truthy (JObj kvs) = True"

text \<open>Property read \<^verbatim>\<open>v.name\<close> on a parsed value: only an object has own properties.\<close>

fun getProp :: "jsval \<Rightarrow> string \<Rightarrow> jsval" where
  "getProp (JObj kvs) name = (case map_of kvs name of Some v \<Rightarrow> v | None \<Rightarrow> JUndefined)"
| "getProp v name = JUndefined"

subsection \<open>Types of \<^verbatim>\<open>types.ts\<close>\<close>

text \<open>
  \<^verbatim>\<open>ForwardBody\<close> with the fields the gateway reads; every field is optional in the
  source. The payer sits at \<^verbatim>\<open>paymentPayload.payload.authorization.from\<close>, the Solana
  transaction at \<^verbatim>\<open>paymentPayload.payload.transaction\<close>. The field \<^verbatim>\<open>from\<close> is named
  \<open>frm\<close> here; it holds whatever value the request carries there (a string in the
  declared type, but nothing checks it), \<open>JUndefined\<close> when the request has none. Fields
  the gateway forwards without reading are left out.
\<close>

record authorization =
  frm :: jsval

record inner_payload =
  authorization :: "authorization option"
  transaction :: "string option"

record payment_payload =
  header :: "string option"
  payload :: "inner_payload option"

record forward_body =
  paymentPayload :: "payment_payload option"
  paymentRequirements :: "jsval option"
  paymentHeader :: "string option"

record sticky_entry =
  peer :: string
  expiresAt :: int

record registered_peer =
  url :: string
  kinds :: "jsval list option"
  lastSeenMs :: int

record peer_response =
  status :: int
  body :: jsval

text \<open>The exception the modelled code can raise: calling what is not a function.\<close>

datatype js_error = TypeError

subsection \<open>Constants\<close>

definition VERIFY_TIMEOUT :: int where "VERIFY_TIMEOUT = 10000"
definition SETTLE_TIMEOUT :: int where "SETTLE_TIMEOUT = 30000"
definition SELECTION_TTL_MS :: int where "SELECTION_TTL_MS = 1 * 60000"
definition REGISTRY_TTL_MS :: int where "REGISTRY_TTL_MS = 2 * 60000"

subsection \<open>JavaScript \<^verbatim>\<open>Map\<close> and \<^verbatim>\<open>Set\<close>\<close>

definition Map_set :: "('k \<times> 'v) list \<Rightarrow> 'k \<Rightarrow> 'v \<Rightarrow> ('k \<times> 'v) list" where
  "Map_set m k v = AList.update k v m"

definition Map_get :: "('k \<times> 'v) list \<Rightarrow> 'k \<Rightarrow> 'v option" where
  "Map_get m k = map_of m k"

definition Set_add :: "'a list \<Rightarrow> 'a \<Rightarrow> 'a list" where
  "Set_add out x = (if x \<in> set out then out else out @ [x])"

subsection \<open>Helpers\<close>

text \<open>\<^verbatim>\<open>url.replace(/\/$/, "")\<close>: one slash at the very end of the string is removed.\<close>

definition normalizeUrl :: "string \<Rightarrow> string" where
  "normalizeUrl u = (if u \<noteq> [] \<and> last u = CHR ''/'' then butlast u else u)"

subsection \<open>Peer registry\<close>

record peer_registry =
  registered :: "(string \<times> registered_peer) list"

definition newPeerRegistry :: peer_registry where
  "newPeerRegistry = \<lparr>registered = []\<rparr>"

definition register :: "peer_registry \<Rightarrow> string \<Rightarrow> jsval list option \<Rightarrow> int \<Rightarrow> peer_registry" where
  "register reg u ks now =
     reg\<lparr>registered := Map_set (registered reg) u \<lparr>url = u, kinds = ks, lastSeenMs = now\<rparr>\<rparr>"

definition getActivePeers :: "peer_registry \<Rightarrow> string list \<Rightarrow> int \<Rightarrow> string list" where
  "getActivePeers reg staticPeers now =
     (let out = foldl (\<lambda>out p. Set_add out (normalizeUrl p)) [] staticPeers
      in foldl (\<lambda>out rp. if now - lastSeenMs rp \<le> REGISTRY_TTL_MS
                          then Set_add out (normalizeUrl (url rp)) else out)
           out (map snd (registered reg)))"


definition registry_size :: "peer_registry \<Rightarrow> nat" where
  "registry_size reg = length (registered reg)"

subsection \<open>Key extraction\<close>

text \<open>Truthiness of an optional string: present and not empty.\<close>

definition strTruthy :: "string option \<Rightarrow> bool" where
  "strTruthy v = (case v of Some x \<Rightarrow> x \<noteq> [] | None \<Rightarrow> False)"

text \<open>
  \<^verbatim>\<open>getHeaderFromBody\<close>: a truthy \<^verbatim>\<open>paymentHeader\<close>, else a truthy string
  \<^verbatim>\<open>paymentPayload.header\<close>, else a non-empty string
  \<^verbatim>\<open>paymentPayload.payload.transaction\<close>, else \<^verbatim>\<open>undefined\<close>.
\<close>

definition getHeaderFromBody :: "forward_body \<Rightarrow> string option" where
  "getHeaderFromBody b =
     (let payloadObj = paymentPayload b;
          payloadHeader = Option.bind payloadObj header;
          pl = Option.bind payloadObj payload;
          solanaTx = Option.bind pl transaction
      in if strTruthy (paymentHeader b) then paymentHeader b
         else if strTruthy payloadHeader then payloadHeader
         else if (case solanaTx of Some tx \<Rightarrow> length tx > 0 | None \<Rightarrow> False) then solanaTx
         else None)"

text \<open>
  \<^verbatim>\<open>payload?.authorization?.from\<close>, returned as it is found: \<open>JUndefined\<close> when a link of
  the chain is missing, else the value of \<^verbatim>\<open>from\<close>, of whatever type.
\<close>

definition getPayerFromBody :: "forward_body \<Rightarrow> jsval" where
  "getPayerFromBody b =
     (let payloadObj = paymentPayload b;
          pl = Option.bind payloadObj payload
      in case Option.bind pl authorization of
           Some a \<Rightarrow> frm a
         | None \<Rightarrow> JUndefined)"

text \<open>
  \<^verbatim>\<open>v.toLowerCase()\<close> for a value \<open>v\<close> that is neither \<^verbatim>\<open>undefined\<close> nor \<^verbatim>\<open>null\<close>: a
  string has the method, with result \<open>lc\<close> of it; a number, a boolean, an array or an
  object parsed from JSON has no such property, and the call throws a TypeError.
\<close>

definition callToLowerCase :: "(string \<Rightarrow> string) \<Rightarrow> jsval \<Rightarrow> js_error + string" where
  "callToLowerCase lc v = (case v of JStr x \<Rightarrow> Inr (lc x) | _ \<Rightarrow> Inl TypeError)"

text \<open>\<^verbatim>\<open>typeof v === "object"\<close> holds of \<^verbatim>\<open>null\<close>, arrays and objects.\<close>

fun typeofObject :: "jsval \<Rightarrow> bool" where
  "typeofObject JNull = True"
| "typeofObject (JArr xs) = True"
| "typeofObject (JObj kvs) = True"
| "typeofObject v = False"

definition getPayerFromVerifyResponse :: "jsval \<Rightarrow> string option" where
  "getPayerFromVerifyResponse respBody =
     (if truthy respBody \<and> typeofObject respBody
      then (case getProp respBody ''payer'' of
              JStr p \<Rightarrow> if length p > 0 then Some p else None
            | _ \<Rightarrow> None)
      else None)"

subsection \<open>Peer selection\<close>

text \<open>\<^verbatim>\<open>arr[Math.floor(Math.random() * arr.length)]\<close>, with \<open>u\<close> the random draw.\<close>

definition pickRandom :: "'a list \<Rightarrow> real \<Rightarrow> 'a" where
  "pickRandom arr u = arr ! nat \<lfloor>u * real (length arr)\<rfloor>"

definition pickSelectedPeerForVerify :: "string list \<Rightarrow> real \<Rightarrow> string" where
  "pickSelectedPeerForVerify peers u =
     (if length peers = 1 then peers ! 0 else pickRandom peers u)"

text \<open>
  \<^verbatim>\<open>rotateToNext\<close>; \<open>shuffle\<close> stands for \<^verbatim>\<open>.sort(() => Math.random() - 0.5)\<close>.
\<close>

definition rotateToNext :: "(string list \<Rightarrow> string list) \<Rightarrow> string list \<Rightarrow> string \<Rightarrow> string list" where
  "rotateToNext shuffle peers current =
     (if length peers \<le> 1 then peers
      else let rest = shuffle (filter (\<lambda>p. p \<noteq> current) peers)
           in current # rest)"

definition normalizeForwardBody :: "forward_body \<Rightarrow> forward_body" where
  "normalizeForwardBody inbound =
     (if paymentPayload inbound \<noteq> None
         \<and> (case paymentRequirements inbound of Some r \<Rightarrow> truthy r | None \<Rightarrow> False)
      then inbound
      else if strTruthy (paymentHeader inbound)
         \<and> (case paymentRequirements inbound of Some r \<Rightarrow> truthy r | None \<Rightarrow> False)
      then \<lparr>paymentPayload = Some \<lparr>header = paymentHeader inbound, payload = None\<rparr>,
            paymentRequirements = paymentRequirements inbound,
            paymentHeader = None\<rparr>
      else inbound)"

subsection \<open>Sticky router\<close>

record sticky_router =
  byPayer :: "(string \<times> sticky_entry) list"
  byHeader :: "(string \<times> sticky_entry) list"

definition newStickyRouter :: sticky_router where
  "newStickyRouter = \<lparr>byPayer = [], byHeader = []\<rparr>"

text \<open>
  \<^verbatim>\<open>recordSelection\<close>. The payer is the one of the verify response, else
  \<^verbatim>\<open>getPayerFromBody(body)\<close>; when it is truthy, \<^verbatim>\<open>payer.toLowerCase()\<close> is evaluated
  as the key of \<^verbatim>\<open>byPayer.set\<close>, and a throw there leaves both maps as they were. The
  result is the outcome beside the router.
\<close>

definition recordSelection ::
  "(string \<Rightarrow> string) \<Rightarrow> sticky_router \<Rightarrow> string \<Rightarrow> forward_body \<Rightarrow> jsval \<Rightarrow> int \<Rightarrow>
   (js_error + unit) \<times> sticky_router" where
  "recordSelection lc s p b verifyResponseBody now =
     (let payer = (case getPayerFromVerifyResponse verifyResponseBody of
                     Some x \<Rightarrow> JStr x
                   | None \<Rightarrow> getPayerFromBody b)
      in case (if truthy payer
               then (case callToLowerCase lc payer of
                       Inr k \<Rightarrow>
                         Inr (s\<lparr>byPayer := Map_set (byPayer s) k
                                               \<lparr>peer = p, expiresAt = now + SELECTION_TTL_MS\<rparr>\<rparr>)
                     | Inl e \<Rightarrow> Inl e)
               else Inr s) of
           Inl e \<Rightarrow> (Inl e, s)
         | Inr s1 \<Rightarrow>
             (let key = getHeaderFromBody b
              in case key of
                   Some k \<Rightarrow>
                     if k \<noteq> []
                     then (Inr (), s1\<lparr>byHeader := Map_set (byHeader s1) k
                                          \<lparr>peer = p, expiresAt = now + SELECTION_TTL_MS\<rparr>\<rparr>)
                     else (Inr (), s1)
                 | None \<Rightarrow> (Inr (), s1)))"

text \<open>
  \<^verbatim>\<open>getPreferredPeer\<close>. \<^verbatim>\<open>getPayerFromBody(body)?.toLowerCase()\<close> is \<^verbatim>\<open>undefined\<close> for
  a payer that is \<^verbatim>\<open>undefined\<close> or \<^verbatim>\<open>null\<close> and calls the method on every other value.
  The method only reads the two maps, so the router comes back as it went in, also
  when the call throws.
\<close>

definition getPreferredPeer ::
  "(string \<Rightarrow> string) \<Rightarrow> sticky_router \<Rightarrow> forward_body \<Rightarrow> int \<Rightarrow>
   (js_error + string option) \<times> sticky_router" where
  "getPreferredPeer lc s b now =
     (case (case getPayerFromBody b of
              JUndefined \<Rightarrow> Inr None
            | JNull \<Rightarrow> Inr None
            | v \<Rightarrow> map_sum id Some (callToLowerCase lc v)) of
        Inl e \<Rightarrow> (Inl e, s)
      | Inr payer \<Rightarrow>
          (let byP = (if strTruthy payer then Option.bind payer (Map_get (byPayer s)) else None)
           in if (case byP of Some e \<Rightarrow> expiresAt e > now | None \<Rightarrow> False)
              then (Inr (map_option peer byP), s)
              else
                (let key = getHeaderFromBody b;
                     byH = (if strTruthy key then Option.bind key (Map_get (byHeader s))
                            else None)
                 in if (case byH of Some e \<Rightarrow> expiresAt e > now | None \<Rightarrow> False)
                    then (Inr (map_option peer byH), s)
                    else (Inr None, s))))"

definition sticky_cleanup :: "sticky_router \<Rightarrow> int \<Rightarrow> sticky_router" where
  "sticky_cleanup s now =
     \<lparr>byPayer = filter (\<lambda>(k, v). \<not> expiresAt v \<le> now) (byPayer s),
      byHeader = filter (\<lambda>(k, v). \<not> expiresAt v \<le> now) (byHeader s)\<rparr>"

definition sticky_destroy :: "sticky_router \<Rightarrow> sticky_router" where
  "sticky_destroy s = \<lparr>byPayer = [], byHeader = []\<rparr>"

text \<open>The \<^verbatim>\<open>size\<close> getter: \<^verbatim>\<open>{ payers, headers }\<close>.\<close>

definition sticky_size :: "sticky_router \<Rightarrow> nat \<times> nat" where
  "sticky_size s = (length (byPayer s), length (byHeader s))"

subsection \<open>Forwarding: verify and settle\<close>

text \<open>
  The outcome of \<^verbatim>\<open>await postJson(url, body, timeoutMs)\<close>: the promise rejects (network
  error, abort at the timeout) or fulfils with the peer's status and parsed body.
\<close>

datatype call_result = Rejected | Fulfilled peer_response

type_synonym network = "string \<Rightarrow> forward_body \<Rightarrow> int \<Rightarrow> call_result"

definition noPeersVerify :: peer_response where
  "noPeersVerify = \<lparr>status = 503, body = JObj [(''error'', JStr ''No peers configured'')]\<rparr>"

definition verificationUnavailable :: peer_response where
  "verificationUnavailable =
     \<lparr>status = 503, body = JObj [(''error'', JStr ''Verification unavailable'')]\<rparr>"

definition settleError :: "string \<Rightarrow> peer_response" where
  "settleError msg =
     \<lparr>status = 503,
      body = JObj [(''success'', JBool False), (''error'', JStr msg),
                   (''txHash'', JNull), (''networkId'', JNull)]\<rparr>"

text \<open>
  The \<^verbatim>\<open>for (const base of order)\<close> loop of the verify handler. The state of the loop is
  \<open>lastError\<close>; \<open>called\<close> collects the URLs posted to. The result is the response sent
  to the client, the sticky router afterwards, and the URLs called. \<open>tRec\<close> is the
  clock when \<^verbatim>\<open>recordSelection\<close> runs. \<^verbatim>\<open>recordSelection\<close> is called inside the
  \<^verbatim>\<open>try\<close> whose \<^verbatim>\<open>catch\<close> continues the loop: when it throws, the response at hand is
  not sent, \<open>lastError\<close> is not set, and the next peer is tried.
\<close>

fun verifyLoop ::
  "(string \<Rightarrow> string) \<Rightarrow> network \<Rightarrow> forward_body \<Rightarrow> int \<Rightarrow> string list \<Rightarrow> sticky_router \<Rightarrow>
   peer_response option \<Rightarrow> string list \<Rightarrow> peer_response \<times> sticky_router \<times> string list" where
  "verifyLoop lc net forwardBody tRec [] sticky lastError called =
     (case lastError of
        Some e \<Rightarrow> (\<lparr>status = status e, body = body e\<rparr>, sticky, called)
      | None \<Rightarrow> (verificationUnavailable, sticky, called))"
| "verifyLoop lc net forwardBody tRec (base # order) sticky lastError called =
     (let u = normalizeUrl base @ ''/verify'' in
      case net u forwardBody VERIFY_TIMEOUT of
        Fulfilled response \<Rightarrow>
          if status response = 200
          then (case recordSelection lc sticky base forwardBody (body response) tRec of
                  (Inr done, sticky') \<Rightarrow>
                    (\<lparr>status = 200, body = body response\<rparr>, sticky', called @ [u])
                | (Inl e, sticky') \<Rightarrow>
                    verifyLoop lc net forwardBody tRec order sticky' lastError (called @ [u]))
          else verifyLoop lc net forwardBody tRec order sticky (Some response) (called @ [u])
      | Rejected \<Rightarrow> verifyLoop lc net forwardBody tRec order sticky lastError (called @ [u]))"

definition verify ::
  "(string \<Rightarrow> string) \<Rightarrow> peer_registry \<Rightarrow> string list \<Rightarrow> sticky_router \<Rightarrow> network \<Rightarrow> real \<Rightarrow>
   (string list \<Rightarrow> string list) \<Rightarrow> int \<Rightarrow> int \<Rightarrow> forward_body \<Rightarrow>
   peer_response \<times> sticky_router \<times> string list" where
  "verify lc registry httpPeers sticky net u shuffle now tRec reqBody =
     (let activePeers = getActivePeers registry httpPeers now in
      if length activePeers = 0 then (noPeersVerify, sticky, [])
      else
        let forwardBody = normalizeForwardBody reqBody;
            primary = pickSelectedPeerForVerify activePeers u;
            order = rotateToNext shuffle activePeers primary
        in verifyLoop lc net forwardBody tRec order sticky None [])"

text \<open>The loop of the settle handler.\<close>

fun settleLoop ::
  "network \<Rightarrow> forward_body \<Rightarrow> string list \<Rightarrow> string list \<Rightarrow> peer_response \<times> string list" where
  "settleLoop net forwardBody [] called = (settleError ''Settle unavailable'', called)"
| "settleLoop net forwardBody (p # order) called =
     (let u = normalizeUrl p @ ''/settle'' in
      case net u forwardBody SETTLE_TIMEOUT of
        Fulfilled response \<Rightarrow>
          if status response = 200
          then (\<lparr>status = 200, body = body response\<rparr>, called @ [u])
          else settleLoop net forwardBody order (called @ [u])
      | Rejected \<Rightarrow> settleLoop net forwardBody order (called @ [u]))"

text \<open>
  \<open>settleOrder\<close> is the fallback order the settle handler builds:
  \<^verbatim>\<open>sticky.getPreferredPeer(forwardBody) ?? pickSelectedPeerForVerify(activePeers)\<close>, then
  \<^verbatim>\<open>rotateToNext\<close>. When \<^verbatim>\<open>getPreferredPeer\<close> throws there is no order.
\<close>

definition settleOrder ::
  "(string \<Rightarrow> string) \<Rightarrow> string list \<Rightarrow> sticky_router \<Rightarrow> real \<Rightarrow> (string list \<Rightarrow> string list) \<Rightarrow>
   int \<Rightarrow> forward_body \<Rightarrow> js_error + string list" where
  "settleOrder lc activePeers sticky u shuffle now forwardBody =
     (case fst (getPreferredPeer lc sticky forwardBody now) of
        Inl e \<Rightarrow> Inl e
      | Inr found \<Rightarrow>
          (let preferred = (case found of
                              Some p \<Rightarrow> p
                            | None \<Rightarrow> pickSelectedPeerForVerify activePeers u)
           in Inr (rotateToNext shuffle activePeers preferred)))"

text \<open>
  The settle handler. It has no \<^verbatim>\<open>try\<close> around \<^verbatim>\<open>getPreferredPeer\<close>: when that throws,
  the handler throws (\<open>Inl\<close>) before it calls a peer and sends no response of its own.
\<close>

definition settle ::
  "(string \<Rightarrow> string) \<Rightarrow> peer_registry \<Rightarrow> string list \<Rightarrow> sticky_router \<Rightarrow> network \<Rightarrow> real \<Rightarrow>
   (string list \<Rightarrow> string list) \<Rightarrow> int \<Rightarrow> forward_body \<Rightarrow>
   (js_error + peer_response) \<times> string list" where
  "settle lc registry httpPeers sticky net u shuffle now reqBody =
     (let activePeers = getActivePeers registry httpPeers now in
      if length activePeers = 0 then (Inr (settleError ''No peers configured''), [])
      else
        let forwardBody = normalizeForwardBody reqBody
        in case settleOrder lc activePeers sticky u shuffle now forwardBody of
             Inl e \<Rightarrow> (Inl e, [])
           | Inr order \<Rightarrow>
               (case settleLoop net forwardBody order [] of
                  (response, called) \<Rightarrow> (Inr response, called)))"

subsection \<open>Capability aggregation\<close>

text \<open>
  The outcome of \<^verbatim>\<open>fetch(url)\<close> followed by \<^verbatim>\<open>r.json()\<close>: either of them throws (the
  call failed, the body is not JSON) or the parsed body is there.
\<close>

datatype fetch_result = FetchThrows | FetchJson jsval

text \<open>\<^verbatim>\<open>Array.isArray(j?.kinds) ? j.kinds : []\<close>\<close>

definition kindsOf :: "jsval \<Rightarrow> jsval list" where
  "kindsOf j = (case getProp j ''kinds'' of JArr ks \<Rightarrow> ks | _ \<Rightarrow> [])"

definition peerKinds :: "(string \<Rightarrow> fetch_result) \<Rightarrow> string \<Rightarrow> jsval list" where
  "peerKinds fetchJson base =
     (case fetchJson (normalizeUrl base @ ''/supported'') of
        FetchJson j \<Rightarrow> kindsOf j
      | FetchThrows \<Rightarrow> [])"

text \<open>
  The closing \<^verbatim>\<open>kinds.filter\<close> with its \<^verbatim>\<open>seen\<close> set; \<open>stringify\<close> stands for
  \<^verbatim>\<open>JSON.stringify\<close>.
\<close>

fun filterSeen :: "(jsval \<Rightarrow> 'key) \<Rightarrow> 'key set \<Rightarrow> jsval list \<Rightarrow> jsval list" where
  "filterSeen stringify seen [] = []"
| "filterSeen stringify seen (k # ks) =
     (let key = stringify k in
      if key \<in> seen then filterSeen stringify seen ks
      else k # filterSeen stringify (insert key seen) ks)"

text \<open>
  \<^verbatim>\<open>aggregateSupportedKinds\<close> returns the URLs fetched (one promise per peer, settled
  together) beside the deduplicated list.
\<close>

definition aggregateSupportedKinds ::
  "(string \<Rightarrow> fetch_result) \<Rightarrow> (jsval \<Rightarrow> 'key) \<Rightarrow> string list \<Rightarrow> string list \<times> jsval list" where
  "aggregateSupportedKinds fetchJson stringify peers =
     (if length peers = 0 then ([], [])
      else
        let results = map (peerKinds fetchJson) peers;
            kinds = concat results
        in (map (\<lambda>base. normalizeUrl base @ ''/supported'') peers,
            filterSeen stringify {} kinds))"


section \<open>Vocabulary of the properties\<close>

text \<open>\<open>endsWith s suf\<close>: the string \<open>s\<close> ends with \<open>suf\<close>.\<close>

definition endsWith :: "string \<Rightarrow> string \<Rightarrow> bool" where
  "endsWith s suf = (length suf \<le> length s \<and> drop (length s - length suf) s = suf)"

text \<open>
  The URLs of the registered peers whose heartbeat age, at \<open>now\<close>, does not exceed the
  registry TTL, as registered (not normalized).
\<close>

definition activeRegistered :: "peer_registry \<Rightarrow> int \<Rightarrow> string list" where
  "activeRegistered reg now =
     map url (filter (\<lambda>rp. now - lastSeenMs rp \<le> REGISTRY_TTL_MS) (map snd (registered reg)))"

text \<open>
  The payer value \<^verbatim>\<open>recordSelection\<close> works with: the one of the verify response, else
  the one of the request body.
\<close>

definition recordedPayer :: "forward_body \<Rightarrow> jsval \<Rightarrow> jsval" where
  "recordedPayer b verifyResponseBody =
     (case getPayerFromVerifyResponse verifyResponseBody of
        Some x \<Rightarrow> JStr x
      | None \<Rightarrow> getPayerFromBody b)"

text \<open>An entry of a sticky map that is present under the key and not yet expired.\<close>

definition liveEntry :: "(string \<times> sticky_entry) list \<Rightarrow> string \<Rightarrow> int \<Rightarrow> sticky_entry option" where
  "liveEntry m k now =
     (case Map_get m k of
        Some e \<Rightarrow> if expiresAt e > now then Some e else None
      | None \<Rightarrow> None)"

text \<open>
  The key a body is looked up under in the payer keyspace: the lower-cased payer, when
  the payer is a string and its lower-cased form is not empty.
\<close>

definition payerKey :: "(string \<Rightarrow> string) \<Rightarrow> forward_body \<Rightarrow> string option" where
  "payerKey lc b =
     (case getPayerFromBody b of
        JStr x \<Rightarrow> if lc x \<noteq> [] then Some (lc x) else None
      | _ \<Rightarrow> None)"

text \<open>
  The payer values for which \<^verbatim>\<open>getPreferredPeer\<close> does not throw: \<^verbatim>\<open>undefined\<close>,
  \<^verbatim>\<open>null\<close> and the strings.
\<close>

fun payerReadable :: "jsval \<Rightarrow> bool" where
  "payerReadable JUndefined = True"
| "payerReadable JNull = True"
| "payerReadable (JStr x) = True"
| "payerReadable v = False"

text \<open>
  The payer values for which \<^verbatim>\<open>recordSelection\<close> does not throw: the falsy values, which
  it skips, and the strings.
\<close>

fun payerRecordable :: "jsval \<Rightarrow> bool" where
  "payerRecordable (JStr x) = True"
| "payerRecordable v = (\<not> truthy v)"

text \<open>
  The responses of the peers of an order that answered at all (the call did not reject),
  in call order.
\<close>

definition answers :: "network \<Rightarrow> string \<Rightarrow> forward_body \<Rightarrow> int \<Rightarrow> string list \<Rightarrow> peer_response list" where
  "answers net path forwardBody timeout order =
     concat (map (\<lambda>p. case net (normalizeUrl p @ path) forwardBody timeout of
                         Fulfilled r \<Rightarrow> [r]
                       | Rejected \<Rightarrow> []) order)"

text \<open>A call that came back with status 200, the status the handlers take as success.\<close>

definition succeeded :: "call_result \<Rightarrow> bool" where
  "succeeded c = (case c of Fulfilled r \<Rightarrow> status r = 200 | Rejected \<Rightarrow> False)"

text \<open>
  Of a list, the elements whose key (under \<open>f\<close>) no earlier element has, in order.
\<close>

fun firstByKey :: "('a \<Rightarrow> 'k) \<Rightarrow> 'a list \<Rightarrow> 'a list" where
  "firstByKey f [] = []"
| "firstByKey f (x # xs) = x # firstByKey f (filter (\<lambda>y. f y \<noteq> f x) xs)"

text \<open>
  Two descriptors with the same fields and the same values in them, in whatever order
  the properties are written.
\<close>

definition sameFields :: "jsval \<Rightarrow> jsval \<Rightarrow> bool" where
  "sameFields x y = (case (x, y) of (JObj a, JObj b) \<Rightarrow> mset a = mset b | _ \<Rightarrow> x = y)"

subsection \<open>Instances of the platform functions, for the examples\<close>

text \<open>
  \<^verbatim>\<open>String.prototype.toLowerCase\<close> as it acts on strings of ASCII characters: the
  letters A to Z are replaced, everything else is kept. The examples use it on such
  strings only.
\<close>

definition lowerChar :: "char \<Rightarrow> char" where
  "lowerChar c =
     (case map_of (zip ''ABCDEFGHIJKLMNOPQRSTUVWXYZ'' ''abcdefghijklmnopqrstuvwxyz'') c of
        Some d \<Rightarrow> d
      | None \<Rightarrow> c)"

definition asciiLower :: "string \<Rightarrow> string" where
  "asciiLower s = map lowerChar s"

text \<open>
  \<^verbatim>\<open>JSON.stringify\<close> on one argument. A string is quoted with the escapes of the
  standard; an array and an object are written without white space, the properties of
  an object in their order; a number is written as an integer is (the examples have no
  other). \<^verbatim>\<open>undefined\<close> is written \<^verbatim>\<open>null\<close> inside an array and its property is left out
  of an object; alone it has no text in JavaScript, and stands here as a text that is
  no JSON text.
\<close>

definition digitChar :: "nat \<Rightarrow> char" where
  "digitChar n = ''0123456789abcdef'' ! (n mod 16)"

definition escapeChar :: "char \<Rightarrow> string" where
  "escapeChar c =
     (if c = CHR 0x22 then [CHR 0x5C, CHR 0x22]
      else if c = CHR 0x5C then [CHR 0x5C, CHR 0x5C]
      else if c = CHR 0x08 then [CHR 0x5C, CHR ''b'']
      else if c = CHR 0x09 then [CHR 0x5C, CHR ''t'']
      else if c = CHR 0x0A then [CHR 0x5C, CHR ''n'']
      else if c = CHR 0x0C then [CHR 0x5C, CHR ''f'']
      else if c = CHR 0x0D then [CHR 0x5C, CHR ''r'']
      else if (of_char c :: nat) < 32
      then [CHR 0x5C, CHR ''u'', CHR ''0'', CHR ''0'', digitChar (of_char c div 16), digitChar (of_char c)]
      else [c])"

definition quoteJSON :: "string \<Rightarrow> string" where
  "quoteJSON s = CHR 0x22 # concat (map escapeChar s) @ [CHR 0x22]"

fun joinWith :: "string \<Rightarrow> string list \<Rightarrow> string" where
  "joinWith sep [] = []"
| "joinWith sep [x] = x"
| "joinWith sep (x # y # ys) = x @ sep @ joinWith sep (y # ys)"

function natText :: "nat \<Rightarrow> string" where
  "natText n = (if n < 10 then [digitChar n] else natText (n div 10) @ [digitChar (n mod 10)])"
  by pat_completeness auto
termination
  by (relation "measure id") auto

definition numberText :: "real \<Rightarrow> string" where
  "numberText x = (if x < 0 then ''-'' else []) @ natText (nat \<lfloor>\<bar>x\<bar>\<rfloor>)"

fun JSON_stringify :: "jsval \<Rightarrow> string" where
  "JSON_stringify JUndefined = ''undefined''"
| "JSON_stringify JNull = ''null''"
| "JSON_stringify (JBool b) = (if b then ''true'' else ''false'')"
| "JSON_stringify (JNum n) = numberText n"
| "JSON_stringify (JStr s) = quoteJSON s"
| "JSON_stringify (JArr xs) =
     ''['' @ joinWith '','' (map (\<lambda>x. if x = JUndefined then ''null'' else JSON_stringify x) xs)
       @ '']''"
| "JSON_stringify (JObj kvs) =
     ''{'' @ joinWith '',''
              (map (\<lambda>kv. quoteJSON (fst kv) @ '':'' @ JSON_stringify (snd kv))
                 (filter (\<lambda>kv. snd kv \<noteq> JUndefined) kvs))
       @ ''}''"

subsection \<open>Example requests, networks and capability endpoints\<close>

text \<open>
  Request bodies of the shapes the repository's tests use: one that carries a value at
  \<^verbatim>\<open>paymentPayload.payload.authorization.from\<close> (\<open>payerBody\<close> when it is a string), one
  that carries a legacy \<^verbatim>\<open>paymentHeader\<close>, and one that carries both.
\<close>

definition fromBody :: "jsval \<Rightarrow> forward_body" where
  "fromBody v =
     \<lparr>paymentPayload =
        Some \<lparr>header = None,
              payload = Some \<lparr>authorization = Some \<lparr>frm = v\<rparr>, transaction = None\<rparr>\<rparr>,
      paymentRequirements = None,
      paymentHeader = None\<rparr>"

definition payerBody :: "string \<Rightarrow> forward_body" where
  "payerBody a = fromBody (JStr a)"



text \<open>
  A network for the examples: \<^verbatim>\<open>http://a\<close> answers verify with status 500 and settle
  with status 400, \<^verbatim>\<open>http://b\<close> answers verify with status 200 and a payer; every other
  call fails in transport. In the second network every call is answered with status 200
  and a body that names no payer.
\<close>

definition exampleNet :: network where
  "exampleNet u forwardBody timeout =
     (if u = ''http://a/verify''
      then Fulfilled \<lparr>status = 500, body = JObj [(''error'', JStr ''boom'')]\<rparr>
      else if u = ''http://b/verify''
      then Fulfilled \<lparr>status = 200,
                      body = JObj [(''isValid'', JBool True), (''payer'', JStr ''0xab'')]\<rparr>
      else if u = ''http://a/settle''
      then Fulfilled \<lparr>status = 400, body = JStr ''bad request''\<rparr>
      else Rejected)"

definition allOkNet :: network where
  "allOkNet u forwardBody timeout =
     Fulfilled \<lparr>status = 200, body = JObj [(''isValid'', JBool True)]\<rparr>"

text \<open>
  Capability endpoints for the examples: \<^verbatim>\<open>http://a\<close> lists one kind, \<^verbatim>\<open>http://b\<close> the
  same kind and another, \<^verbatim>\<open>http://c\<close> answers with a body that has no \<^verbatim>\<open>kinds\<close>,
  \<^verbatim>\<open>http://e\<close> lists the kind of \<^verbatim>\<open>http://a\<close> with its two properties in the other
  order, and every other fetch throws.
\<close>

definition exampleFetch :: "string \<Rightarrow> fetch_result" where
  "exampleFetch u =
     (if u = ''http://a/supported''
      then FetchJson (JObj [(''kinds'', JArr [JObj [(''scheme'', JStr ''exact''), (''network'', JStr ''base'')]])])
      else if u = ''http://b/supported''
      then FetchJson (JObj [(''kinds'', JArr [JObj [(''scheme'', JStr ''exact''), (''network'', JStr ''base'')],
                                               JObj [(''scheme'', JStr ''exact''), (''network'', JStr ''solana'')]])])
      else if u = ''http://c/supported''
      then FetchJson (JObj [(''error'', JStr ''not here'')])
      else if u = ''http://e/supported''
      then FetchJson (JObj [(''kinds'', JArr [JObj [(''network'', JStr ''base''), (''scheme'', JStr ''exact'')]])])
      else FetchThrows)"

section \<open>Auxiliary facts\<close>

subsection \<open>Sets and maps in insertion order\<close>

lemma Set_add_set: "set (Set_add out x) = insert x (set out)"
  by (auto simp: Set_add_def)

lemma Set_add_distinct: "distinct out \<Longrightarrow> distinct (Set_add out x)"
  by (simp add: Set_add_def)

lemma foldl_static_set:
  "set (foldl (\<lambda>out p. Set_add out (f p)) acc xs) = set acc \<union> f ` set xs"
  by (induction xs arbitrary: acc) (auto simp: Set_add_set)

lemma foldl_static_distinct:
  "distinct acc \<Longrightarrow> distinct (foldl (\<lambda>out p. Set_add out (f p)) acc xs)"
  by (induction xs arbitrary: acc) (auto simp: Set_add_distinct)

lemma foldl_cond_set:
  "set (foldl (\<lambda>out r. if P r then Set_add out (g r) else out) acc rs)
     = set acc \<union> g ` {r \<in> set rs. P r}"
  by (induction rs arbitrary: acc) (auto simp: Set_add_set)

lemma foldl_cond_distinct:
  "distinct acc \<Longrightarrow> distinct (foldl (\<lambda>out r. if P r then Set_add out (g r) else out) acc rs)"
  by (induction rs arbitrary: acc) (auto simp: Set_add_distinct)

lemma getActivePeers_set:
  "set (getActivePeers reg staticPeers now)
     = normalizeUrl ` (set staticPeers \<union> set (activeRegistered reg now))"
  unfolding getActivePeers_def Let_def activeRegistered_def
  by (auto simp: foldl_cond_set foldl_static_set)

lemma getActivePeers_distinct: "distinct (getActivePeers reg staticPeers now)"
  unfolding getActivePeers_def Let_def
  by (simp add: foldl_cond_distinct foldl_static_distinct)

lemma endsWith_iff: "endsWith s suf \<longleftrightarrow> (\<exists>t. s = t @ suf)"
proof
  assume "endsWith s suf"
  then have "s = take (length s - length suf) s @ suf"
    unfolding endsWith_def by (metis append_take_drop_id)
  then show "\<exists>t. s = t @ suf" ..
next
  assume "\<exists>t. s = t @ suf"
  then show "endsWith s suf" by (auto simp: endsWith_def)
qed

lemma normalizeUrl_slash: "endsWith (normalizeUrl r) ''/'' \<longleftrightarrow> endsWith r ''//''"
proof (cases r rule: rev_cases)
  case Nil
  then show ?thesis by (simp add: normalizeUrl_def endsWith_def)
next
  case (snoc ys y)
  show ?thesis
  proof (cases "y = CHR ''/''")
    case True
    then have n: "normalizeUrl r = ys" using snoc by (simp add: normalizeUrl_def)
    have "endsWith r ''//'' \<longleftrightarrow> endsWith ys ''/''"
      using snoc True unfolding endsWith_iff by auto
    then show ?thesis using n by simp
  next
    case False
    then have "normalizeUrl r = r" using snoc by (simp add: normalizeUrl_def)
    moreover have "\<not> endsWith r ''/''" "\<not> endsWith r ''//''"
      using snoc False unfolding endsWith_iff by auto
    ultimately show ?thesis by simp
  qed
qed

subsection \<open>Map updates and the sticky router\<close>

lemma update_mem: "(k, v) \<in> set (AList.update k v al)"
  by (induction al) auto




lemma Map_get_mem: "Map_get m k = Some e \<Longrightarrow> (k, e) \<in> set m"
  by (simp add: Map_get_def map_of_SomeD)

lemma getHeaderFromBody_nonempty: "getHeaderFromBody b = Some k \<Longrightarrow> k \<noteq> []"
  by (auto simp: getHeaderFromBody_def Let_def strTruthy_def split: if_splits option.splits)

lemma getPreferredPeer_snd: "snd (getPreferredPeer lc s b now) = s"
  by (simp add: getPreferredPeer_def Let_def callToLowerCase_def split: jsval.splits sum.splits)

lemma getPreferredPeer_fst:
  "fst (getPreferredPeer lc s b now)
     = (if payerReadable (getPayerFromBody b)
        then Inr (case Option.bind (payerKey lc b) (\<lambda>k. liveEntry (byPayer s) k now) of
                    Some e \<Rightarrow> Some (peer e)
                  | None \<Rightarrow> map_option peer
                              (Option.bind (getHeaderFromBody b) (\<lambda>k. liveEntry (byHeader s) k now)))
        else Inl TypeError)"
  using getHeaderFromBody_nonempty [of b]
  by (cases "getPayerFromBody b"; cases "getHeaderFromBody b")
     (auto simp: getPreferredPeer_def Let_def payerKey_def liveEntry_def strTruthy_def
           callToLowerCase_def split: option.splits)

lemma recordSelection_fst:
  "fst (recordSelection lc s p b r now)
     = (if payerRecordable (recordedPayer b r) then Inr () else Inl TypeError)"
  by (cases "recordedPayer b r")
     (auto simp: recordSelection_def recordedPayer_def Let_def callToLowerCase_def
           split: option.splits)

lemma recordSelection_throw_state:
  "\<not> payerRecordable (recordedPayer b r) \<Longrightarrow> snd (recordSelection lc s p b r now) = s"
  by (cases "recordedPayer b r")
     (auto simp: recordSelection_def recordedPayer_def Let_def callToLowerCase_def
           split: option.splits)




lemma liveEntry_mem: "liveEntry m k now = Some e \<Longrightarrow> (k, e) \<in> set m \<and> expiresAt e > now"
  by (auto simp: liveEntry_def dest: Map_get_mem split: option.splits if_splits)










subsection \<open>Registration\<close>

lemma register_registered:
  "registered (register reg u ks T) = AList.update u \<lparr>url = u, kinds = ks, lastSeenMs = T\<rparr> (registered reg)"
  by (simp add: register_def Map_set_def)

lemma register_active:
  assumes "normalizeUrl u' = normalizeUrl u" "q - T \<le> REGISTRY_TTL_MS"
  shows "normalizeUrl u \<in> set (getActivePeers (register reg u' ks T) st q)"
proof -
  have "(u', \<lparr>url = u', kinds = ks, lastSeenMs = T\<rparr>) \<in> set (registered (register reg u' ks T))"
    by (simp add: register_registered update_mem)
  then have "u' \<in> set (activeRegistered (register reg u' ks T) q)"
    using assms(2) by (force simp: activeRegistered_def)
  then have "normalizeUrl u' \<in> set (getActivePeers (register reg u' ks T) st q)"
    by (simp add: getActivePeers_set)
  then show ?thesis using assms(1) by simp
qed


lemma register_keys:
  "map fst (registered (register reg u ks T))
     = (if u \<in> fst ` set (registered reg) then map fst (registered reg)
        else map fst (registered reg) @ [u])"
  by (simp add: register_registered update_keys)

lemma register_size:
  "registry_size (register reg u ks T)
     = (if u \<in> fst ` set (registered reg) then registry_size reg else registry_size reg + 1)"
proof -
  have "registry_size (register reg u ks T) = length (map fst (registered (register reg u ks T)))"
    by (simp add: registry_size_def)
  also have "\<dots> = (if u \<in> fst ` set (registered reg) then registry_size reg else registry_size reg + 1)"
    unfolding register_keys by (simp add: registry_size_def)
  finally show ?thesis .
qed

lemma register_key_present: "u \<in> fst ` set (registered (register reg u ks T))"
  using update_mem [of u "\<lparr>url = u, kinds = ks, lastSeenMs = T\<rparr>" "registered reg"]
  by (force simp: register_registered)

subsection \<open>The periodic sweep\<close>





subsection \<open>The example requests\<close>

lemma fromBody_payer: "getPayerFromBody (fromBody v) = v"
  by (simp add: getPayerFromBody_def fromBody_def)

lemma fromBody_header: "getHeaderFromBody (fromBody v) = None"
  by (simp add: getHeaderFromBody_def fromBody_def strTruthy_def)

lemma fromBody_forward: "normalizeForwardBody (fromBody v) = fromBody v"
  by (simp add: normalizeForwardBody_def fromBody_def)

lemma payerBody_payer: "getPayerFromBody (payerBody a) = JStr a"
  by (simp add: payerBody_def fromBody_payer)

lemma payerBody_header: "getHeaderFromBody (payerBody a) = None"
  by (simp add: payerBody_def fromBody_header)

lemma payerBody_forward: "normalizeForwardBody (payerBody a) = payerBody a"
  by (simp add: payerBody_def fromBody_forward)





lemma no_payer_in_response:
  "getPayerFromVerifyResponse (JObj []) = None"
  "getPayerFromVerifyResponse (JObj [(''isValid'', JBool True)]) = None"
  by (simp_all add: getPayerFromVerifyResponse_def)


lemma lower_0xAb: "asciiLower ''0xAb'' = ''0xab''" "asciiLower ''0xaB'' = ''0xab''"
  by (simp_all add: asciiLower_def lowerChar_def)

lemma lower_hex: "asciiLower ''0xab'' = ''0xab''" "asciiLower ''0xAB'' = ''0xab''"
  "asciiLower ''0xcd'' = ''0xcd''"
  by (simp_all add: asciiLower_def lowerChar_def)

lemma sticky_example_record:
  "recordSelection asciiLower newStickyRouter p (payerBody ''0xab'') (JObj []) T
     = (Inr (), \<lparr>byPayer = [(''0xab'', \<lparr>peer = p, expiresAt = T + SELECTION_TTL_MS\<rparr>)],
                 byHeader = []\<rparr>)"
  by (simp add: recordSelection_def payerBody_payer payerBody_header no_payer_in_response
      callToLowerCase_def lower_hex Map_set_def newStickyRouter_def)

lemma sticky_example_lookup:
  "fst (getPreferredPeer asciiLower
          (snd (recordSelection asciiLower newStickyRouter p (payerBody ''0xab'') (JObj []) T))
          (payerBody ''0xab'') q)
     = Inr (if q < T + SELECTION_TTL_MS then Some p else None)"
  by (simp add: getPreferredPeer_fst payerKey_def payerBody_payer payerBody_header
      sticky_example_record lower_hex liveEntry_def Map_get_def)

subsection \<open>Peer selection and fallback order\<close>

lemma mset_filter_neq:
  "distinct xs \<Longrightarrow> x \<in> set xs \<Longrightarrow> add_mset x (mset (filter (\<lambda>p. p \<noteq> x) xs)) = mset xs"
proof (induction xs)
  case Nil
  then show ?case by simp
next
  case (Cons a xs)
  show ?case
  proof (cases "a = x")
    case True
    then have "x \<notin> set xs" using Cons.prems by simp
    then have "filter (\<lambda>p. p \<noteq> x) xs = xs" by (auto simp: filter_id_conv)
    then show ?thesis using True by simp
  next
    case False
    then show ?thesis using Cons by simp
  qed
qed

lemma pickRandom_mem:
  assumes "0 \<le> u" "u < 1" "arr \<noteq> []"
  shows "pickRandom arr u \<in> set arr"
proof -
  have n: "0 < real (length arr)" using assms(3) by simp
  have "u * real (length arr) < real (length arr)" using assms(2) n by simp
  then have "\<lfloor>u * real (length arr)\<rfloor> < int (length arr)" by linarith
  moreover have "0 \<le> \<lfloor>u * real (length arr)\<rfloor>" using assms(1) by simp
  ultimately have "nat \<lfloor>u * real (length arr)\<rfloor> < length arr" by linarith
  then show ?thesis by (simp add: pickRandom_def)
qed

lemma pickSelectedPeerForVerify_mem:
  assumes "0 \<le> u" "u < 1" "peers \<noteq> []"
  shows "pickSelectedPeerForVerify peers u \<in> set peers"
  using assms by (auto simp: pickSelectedPeerForVerify_def pickRandom_mem)

lemma rotateToNext_mset:
  assumes "\<forall>xs. mset (shuffle xs) = mset xs" "distinct peers" "preferred \<in> set peers"
  shows "mset (rotateToNext shuffle peers preferred) = mset peers"
proof (cases "length peers \<le> 1")
  case True
  then show ?thesis by (simp add: rotateToNext_def)
next
  case False
  have "mset (preferred # shuffle (filter (\<lambda>p. p \<noteq> preferred) peers))
      = add_mset preferred (mset (shuffle (filter (\<lambda>p. p \<noteq> preferred) peers)))"
    by simp
  also have "\<dots> = add_mset preferred (mset (filter (\<lambda>p. p \<noteq> preferred) peers))"
    using assms(1) by (simp del: mset_filter)
  also have "\<dots> = mset peers"
    using assms(2,3) by (rule mset_filter_neq)
  finally show ?thesis using False by (simp add: rotateToNext_def del: mset_filter)
qed

lemma rotateToNext_hd:
  assumes "preferred \<in> set peers"
  shows "hd (rotateToNext shuffle peers preferred) = preferred"
proof (cases "length peers \<le> 1")
  case True
  then obtain x where "peers = [x]" using assms by (cases peers) auto
  then show ?thesis using assms by (simp add: rotateToNext_def)
next
  case False
  then show ?thesis by (simp add: rotateToNext_def)
qed

subsection \<open>Forwarding\<close>

lemma verifyLoop_skip:
  assumes "\<forall>q \<in> set pre. \<not> succeeded (net (normalizeUrl q @ ''/verify'') fb VERIFY_TIMEOUT)"
  shows "\<exists>lastError'. verifyLoop lc net fb tRec (pre @ rest) sticky lastError called
     = verifyLoop lc net fb tRec rest sticky lastError'
         (called @ map (\<lambda>q. normalizeUrl q @ ''/verify'') pre)"
  using assms
proof (induction pre arbitrary: lastError called)
  case Nil
  show ?case by (intro exI [of _ lastError]) simp
next
  case (Cons a pre)
  show ?case
  proof (cases "net (normalizeUrl a @ ''/verify'') fb VERIFY_TIMEOUT")
    case Rejected
    then show ?thesis
      using Cons.IH [of lastError "called @ [normalizeUrl a @ ''/verify'']"] Cons.prems by simp
  next
    case (Fulfilled r)
    then have "status r \<noteq> 200" using Cons.prems by (simp add: succeeded_def)
    then show ?thesis
      using Cons.IH [of "Some r" "called @ [normalizeUrl a @ ''/verify'']"] Cons.prems Fulfilled
      by simp
  qed
qed

lemma verifyLoop_success_head:
  assumes "net (normalizeUrl p @ ''/verify'') fb VERIFY_TIMEOUT = Fulfilled r" "status r = 200"
    "payerRecordable (recordedPayer fb (body r))"
  shows "verifyLoop lc net fb tRec (p # post) sticky lastError called
     = (\<lparr>status = 200, body = body r\<rparr>, snd (recordSelection lc sticky p fb (body r) tRec),
        called @ [normalizeUrl p @ ''/verify''])"
proof -
  have "fst (recordSelection lc sticky p fb (body r) tRec) = Inr ()"
    using assms(3) by (simp add: recordSelection_fst)
  then obtain sticky' where "recordSelection lc sticky p fb (body r) tRec = (Inr (), sticky')"
    by (cases "recordSelection lc sticky p fb (body r) tRec") auto
  then show ?thesis using assms(1,2) by simp
qed

lemma verifyLoop_throw_head:
  assumes "net (normalizeUrl p @ ''/verify'') fb VERIFY_TIMEOUT = Fulfilled r" "status r = 200"
    "\<not> payerRecordable (recordedPayer fb (body r))"
  shows "verifyLoop lc net fb tRec (p # post) sticky lastError called
     = verifyLoop lc net fb tRec post sticky lastError (called @ [normalizeUrl p @ ''/verify''])"
proof -
  have "recordSelection lc sticky p fb (body r) tRec = (Inl TypeError, sticky)"
    using assms(3) recordSelection_fst [of lc sticky p fb "body r" tRec]
      recordSelection_throw_state [of fb "body r" lc sticky p tRec]
    by (metis prod.collapse)
  then show ?thesis using assms(1,2) by simp
qed

lemma verifyLoop_first_success:
  assumes "\<forall>q \<in> set pre. \<not> succeeded (net (normalizeUrl q @ ''/verify'') fb VERIFY_TIMEOUT)"
    "net (normalizeUrl p @ ''/verify'') fb VERIFY_TIMEOUT = Fulfilled r" "status r = 200"
    "payerRecordable (recordedPayer fb (body r))"
  shows "verifyLoop lc net fb tRec (pre @ p # post) sticky lastError called
     = (\<lparr>status = 200, body = body r\<rparr>, snd (recordSelection lc sticky p fb (body r) tRec),
        called @ map (\<lambda>q. normalizeUrl q @ ''/verify'') (pre @ [p]))"
proof -
  obtain lastError' where "verifyLoop lc net fb tRec (pre @ p # post) sticky lastError called
     = verifyLoop lc net fb tRec (p # post) sticky lastError'
         (called @ map (\<lambda>q. normalizeUrl q @ ''/verify'') pre)"
    using verifyLoop_skip [of pre net fb, OF assms(1)] by blast
  also have "\<dots> = (\<lparr>status = 200, body = body r\<rparr>,
        snd (recordSelection lc sticky p fb (body r) tRec),
        (called @ map (\<lambda>q. normalizeUrl q @ ''/verify'') pre) @ [normalizeUrl p @ ''/verify''])"
    using assms(2,3,4) by (rule verifyLoop_success_head)
  finally show ?thesis by simp
qed

lemma answers_Cons:
  "answers net path fb t (a # order)
     = (case net (normalizeUrl a @ path) fb t of Fulfilled r \<Rightarrow> [r] | Rejected \<Rightarrow> []) @ answers net path fb t order"
  by (simp add: answers_def)

lemma verifyLoop_all_fail:
  assumes "\<forall>q \<in> set order. \<not> succeeded (net (normalizeUrl q @ ''/verify'') fb VERIFY_TIMEOUT)"
  shows "verifyLoop lc net fb tRec order sticky lastError called
     = ((if answers net ''/verify'' fb VERIFY_TIMEOUT order = []
         then (case lastError of Some e \<Rightarrow> e | None \<Rightarrow> verificationUnavailable)
         else last (answers net ''/verify'' fb VERIFY_TIMEOUT order)),
        sticky, called @ map (\<lambda>q. normalizeUrl q @ ''/verify'') order)"
  using assms
proof (induction order arbitrary: lastError called)
  case Nil
  then show ?case by (simp add: answers_def split: option.splits)
next
  case (Cons a order)
  show ?case
  proof (cases "net (normalizeUrl a @ ''/verify'') fb VERIFY_TIMEOUT")
    case Rejected
    then show ?thesis using Cons by (simp add: answers_Cons)
  next
    case (Fulfilled r)
    then have "status r \<noteq> 200" using Cons.prems by (simp add: succeeded_def)
    then show ?thesis using Cons Fulfilled by (simp add: answers_Cons)
  qed
qed

lemma settleLoop_all_fail:
  assumes "\<forall>q \<in> set order. \<not> succeeded (net (normalizeUrl q @ ''/settle'') fb SETTLE_TIMEOUT)"
  shows "settleLoop net fb order called
     = (settleError ''Settle unavailable'', called @ map (\<lambda>q. normalizeUrl q @ ''/settle'') order)"
  using assms
proof (induction order arbitrary: called)
  case Nil
  then show ?case by simp
next
  case (Cons a order)
  then show ?case
    by (cases "net (normalizeUrl a @ ''/settle'') fb SETTLE_TIMEOUT") (simp_all add: succeeded_def)
qed

lemma settleLoop_result:
  "fst (settleLoop net fb order called) = settleError ''Settle unavailable''
   \<or> (\<exists>q \<in> set order. \<exists>r. net (normalizeUrl q @ ''/settle'') fb SETTLE_TIMEOUT = Fulfilled r
         \<and> status r = 200 \<and> fst (settleLoop net fb order called) = \<lparr>status = 200, body = body r\<rparr>)"
proof (induction order arbitrary: called)
  case Nil
  then show ?case by simp
next
  case (Cons a order)
  show ?case
  proof (cases "net (normalizeUrl a @ ''/settle'') fb SETTLE_TIMEOUT")
    case Rejected
    then show ?thesis using Cons [of "called @ [normalizeUrl a @ ''/settle'']"] by auto
  next
    case (Fulfilled r)
    show ?thesis
    proof (cases "status r = 200")
      case True
      then show ?thesis using Fulfilled by auto
    next
      case False
      then show ?thesis using Fulfilled Cons [of "called @ [normalizeUrl a @ ''/settle'']"] by auto
    qed
  qed
qed

lemma exampleNet_calls:
  "exampleNet (normalizeUrl ''http://a'' @ ''/verify'') fb t
     = Fulfilled \<lparr>status = 500, body = JObj [(''error'', JStr ''boom'')]\<rparr>"
  "exampleNet (normalizeUrl ''http://b'' @ ''/verify'') fb t
     = Fulfilled \<lparr>status = 200, body = JObj [(''isValid'', JBool True), (''payer'', JStr ''0xab'')]\<rparr>"
  "exampleNet (normalizeUrl ''http://c'' @ ''/verify'') fb t = Rejected"
  "exampleNet (normalizeUrl ''http://a'' @ ''/settle'') fb t
     = Fulfilled \<lparr>status = 400, body = JStr ''bad request''\<rparr>"
  "exampleNet (normalizeUrl ''http://b'' @ ''/settle'') fb t = Rejected"
  by (simp_all add: exampleNet_def normalizeUrl_def)

lemma static_peers_only:
  "getActivePeers newPeerRegistry [''http://a'', ''http://b''] now = [''http://a'', ''http://b'']"
  "getActivePeers newPeerRegistry [''http://a'', ''http://c''] now = [''http://a'', ''http://c'']"
  "getActivePeers newPeerRegistry [''http://c''] now = [''http://c'']"
  "getActivePeers newPeerRegistry [] now = []"
  by (simp_all add: getActivePeers_def newPeerRegistry_def normalizeUrl_def Set_add_def)

lemma pick_first: "pickSelectedPeerForVerify (x # xs) 0 = x"
  by (simp add: pickSelectedPeerForVerify_def pickRandom_def)

lemma rotate_examples:
  "rotateToNext id [''http://a'', ''http://b''] ''http://a'' = [''http://a'', ''http://b'']"
  "rotateToNext id [''http://a'', ''http://c''] ''http://a'' = [''http://a'', ''http://c'']"
  "rotateToNext id [''http://c''] ''http://c'' = [''http://c'']"
  by (simp_all add: rotateToNext_def)

lemma verify_success_recordable:
  assumes "getActivePeers registry httpPeers now \<noteq> []"
    "rotateToNext shuffle (getActivePeers registry httpPeers now)
        (pickSelectedPeerForVerify (getActivePeers registry httpPeers now) u) = pre @ p # post"
    "\<forall>q \<in> set pre. \<not> succeeded (net (normalizeUrl q @ ''/verify'')
                                      (normalizeForwardBody reqBody) VERIFY_TIMEOUT)"
    "net (normalizeUrl p @ ''/verify'') (normalizeForwardBody reqBody) VERIFY_TIMEOUT = Fulfilled r"
    "status r = 200"
    "payerRecordable (recordedPayer (normalizeForwardBody reqBody) (body r))"
  shows "verify lc registry httpPeers sticky net u shuffle now tRec reqBody
        = (\<lparr>status = 200, body = body r\<rparr>,
           snd (recordSelection lc sticky p (normalizeForwardBody reqBody) (body r) tRec),
           map (\<lambda>q. normalizeUrl q @ ''/verify'') (pre @ [p]))"
proof -
  have "verify lc registry httpPeers sticky net u shuffle now tRec reqBody
      = verifyLoop lc net (normalizeForwardBody reqBody) tRec (pre @ p # post) sticky None []"
    using assms(1,2) by (simp add: verify_def Let_def)
  also have "\<dots> = (\<lparr>status = 200, body = body r\<rparr>,
           snd (recordSelection lc sticky p (normalizeForwardBody reqBody) (body r) tRec),
           [] @ map (\<lambda>q. normalizeUrl q @ ''/verify'') (pre @ [p]))"
    using assms(3,4,5,6) by (rule verifyLoop_first_success)
  finally show ?thesis by simp
qed

lemma settle_all_fail:
  assumes "getActivePeers registry httpPeers now \<noteq> []"
    "settleOrder lc (getActivePeers registry httpPeers now) sticky u shuffle now
       (normalizeForwardBody reqBody) = Inr order"
    "\<forall>q \<in> set order. \<not> succeeded (net (normalizeUrl q @ ''/settle'')
                                        (normalizeForwardBody reqBody) SETTLE_TIMEOUT)"
  shows "settle lc registry httpPeers sticky net u shuffle now reqBody
       = (Inr (settleError ''Settle unavailable''), map (\<lambda>q. normalizeUrl q @ ''/settle'') order)"
  using assms by (simp add: settle_def Let_def settleLoop_all_fail)

lemma settle_throws:
  assumes "getActivePeers registry httpPeers now \<noteq> []"
    "\<not> payerReadable (getPayerFromBody (normalizeForwardBody reqBody))"
  shows "settle lc registry httpPeers sticky net u shuffle now reqBody = (Inl TypeError, [])"
  using assms by (simp add: settle_def Let_def settleOrder_def getPreferredPeer_fst)

lemma allOkNet_calls:
  "allOkNet a fb t = Fulfilled \<lparr>status = 200, body = JObj [(''isValid'', JBool True)]\<rparr>"
  by (simp add: allOkNet_def)

subsection \<open>Capability aggregation\<close>

lemma firstByKey_subset: "set (firstByKey f xs) \<subseteq> set xs"
  by (induction f xs rule: firstByKey.induct) auto

lemma firstByKey_keys: "f ` set (firstByKey f xs) = f ` set xs"
  by (induction f xs rule: firstByKey.induct) auto

lemma firstByKey_distinct: "distinct (map f (firstByKey f xs))"
proof (induction f xs rule: firstByKey.induct)
  case (1 f)
  then show ?case by simp
next
  case (2 f x xs)
  have "f x \<notin> f ` set (firstByKey f (filter (\<lambda>y. f y \<noteq> f x) xs))"
    by (auto simp: firstByKey_keys)
  then show ?case using 2 by simp
qed

lemma firstByKey_id: "distinct (map f xs) \<Longrightarrow> firstByKey f xs = xs"
proof (induction xs)
  case Nil
  then show ?case by simp
next
  case (Cons x xs)
  then have "f x \<notin> f ` set xs" by simp
  then have "\<forall>y \<in> set xs. f y \<noteq> f x" by (metis imageI)
  then have "filter (\<lambda>y. f y \<noteq> f x) xs = xs" by (simp add: filter_id_conv)
  then show ?case using Cons by simp
qed

lemma filterSeen_firstByKey:
  "filterSeen stringify seen ks = firstByKey stringify (filter (\<lambda>k. stringify k \<notin> seen) ks)"
proof (induction ks arbitrary: seen)
  case Nil
  then show ?case by simp
next
  case (Cons k ks)
  show ?case
  proof (cases "stringify k \<in> seen")
    case True
    then show ?thesis using Cons.IH by simp
  next
    case False
    have "filter (\<lambda>y. stringify y \<noteq> stringify k) (filter (\<lambda>x. stringify x \<notin> seen) ks)
        = filter (\<lambda>x. stringify x \<notin> insert (stringify k) seen) ks"
      by (auto intro!: filter_cong)
    then show ?thesis using False Cons.IH [of "insert (stringify k) seen"] by (simp add: Let_def)
  qed
qed

lemma aggregate_snd:
  "snd (aggregateSupportedKinds fetchJson stringify peers)
     = firstByKey stringify (concat (map (peerKinds fetchJson) peers))"
  by (cases peers) (simp_all add: aggregateSupportedKinds_def Let_def filterSeen_firstByKey)

lemma aggregate_fst:
  "fst (aggregateSupportedKinds fetchJson stringify peers)
     = map (\<lambda>base. normalizeUrl base @ ''/supported'') peers"
  by (cases peers) (simp_all add: aggregateSupportedKinds_def Let_def)

lemma exampleFetch_kinds:
  "peerKinds exampleFetch ''http://a''
     = [JObj [(''scheme'', JStr ''exact''), (''network'', JStr ''base'')]]"
  "peerKinds exampleFetch ''http://b/''
     = [JObj [(''scheme'', JStr ''exact''), (''network'', JStr ''base'')],
        JObj [(''scheme'', JStr ''exact''), (''network'', JStr ''solana'')]]"
  "peerKinds exampleFetch ''http://e''
     = [JObj [(''network'', JStr ''base''), (''scheme'', JStr ''exact'')]]"
  "exampleFetch (normalizeUrl ''http://c'' @ ''/supported'') = FetchJson (JObj [(''error'', JStr ''not here'')])"
  "exampleFetch (normalizeUrl ''http://d'' @ ''/supported'') = FetchThrows"
  by (simp_all add: peerKinds_def kindsOf_def exampleFetch_def normalizeUrl_def)

lemma example_texts:
  "JSON_stringify (JObj [(''scheme'', JStr ''exact''), (''network'', JStr ''base'')])
     \<noteq> JSON_stringify (JObj [(''scheme'', JStr ''exact''), (''network'', JStr ''solana'')])"
  "JSON_stringify (JObj [(''network'', JStr ''base''), (''scheme'', JStr ''exact'')])
     \<noteq> JSON_stringify (JObj [(''scheme'', JStr ''exact''), (''network'', JStr ''base'')])"
  by (simp_all add: quoteJSON_def escapeChar_def)

section \<open>Peer registry: the active peer set\<close>

text \<open>
  C8, as the code has it. For every static peer list, registry and clock,
  \<open>getActivePeers\<close> returns a list without repetition whose elements are exactly the
  images under \<open>normalizeUrl\<close> of the static peers and of the registered peers whose
  heartbeat age does not exceed \<open>REGISTRY_TTL_MS\<close>; a URL listed statically and
  registered appears once. \<open>normalizeUrl\<close> removes one trailing slash, so the result
  is free of trailing slashes when no contributing URL ends in two slashes.
\<close>

theorem getActivePeers_union:
  "distinct (getActivePeers reg staticPeers now)
   \<and> set (getActivePeers reg staticPeers now)
       = normalizeUrl ` (set staticPeers \<union> set (activeRegistered reg now))
   \<and> ((\<forall>raw \<in> set staticPeers \<union> set (activeRegistered reg now). \<not> endsWith raw ''//'')
        \<longrightarrow> (\<forall>x \<in> set (getActivePeers reg staticPeers now). \<not> endsWith x ''/''))"
  by (auto simp: getActivePeers_distinct getActivePeers_set normalizeUrl_slash)

text \<open>
  An instance: \<^verbatim>\<open>http://a\<close> is static (written with a slash) and registered, and
  \<^verbatim>\<open>http://b/\<close> has not been heard of for 130 seconds.
\<close>

theorem getActivePeers_union_witness:
  "activeRegistered (register (register newPeerRegistry ''http://b/'' None 0) ''http://a'' None 100000)
       130000 = [''http://a'']
   \<and> \<not> endsWith ''http://a/'' ''//'' \<and> \<not> endsWith ''http://c'' ''//''
   \<and> \<not> endsWith ''http://a'' ''//''
   \<and> getActivePeers (register (register newPeerRegistry ''http://b/'' None 0) ''http://a'' None 100000)
        [''http://a/'', ''http://c''] 130000 = [''http://a'', ''http://c'']
   \<and> \<not> endsWith ''http://a'' ''/'' \<and> \<not> endsWith ''http://c'' ''/''"
  using getActivePeers_union [of "register (register newPeerRegistry ''http://b/'' None 0) ''http://a'' None 100000"
      "[''http://a/'', ''http://c'']" 130000]
  by (simp add: getActivePeers_def register_def newPeerRegistry_def Map_set_def normalizeUrl_def
      Set_add_def REGISTRY_TTL_MS_def activeRegistered_def endsWith_def)

text \<open>
  C8 as worded asks that no returned URL has a trailing slash. A static peer written
  with two trailing slashes keeps one of them.
\<close>

theorem getActivePeers_trailing_slash_counterexample:
  "getActivePeers newPeerRegistry [''http://a//''] 0 = [''http://a/'']
   \<and> endsWith ''http://a/'' ''/''"
  by (simp add: getActivePeers_def newPeerRegistry_def normalizeUrl_def Set_add_def endsWith_def)

section \<open>Time to live of registrations and sticky selections\<close>




section \<open>Heartbeat refresh\<close>

text \<open>
  C9, as the code has it. The registry is keyed by the URL string as registered. A
  second \<open>register\<close> with the same string replaces the entry in place: the registry
  size and the order of its keys stay, and the entry carries the new \<open>lastSeenMs\<close>. A
  second \<open>register\<close> with a string not yet a key, a trailing-slash variant included,
  adds an entry, so the size grows by one. Either way the peer stays active past the
  first registration's expiry: registered at \<open>T0\<close> and again (same string, or a
  variant with the same normalized URL) at \<open>T0 + REGISTRY_TTL_MS - eps\<close>, it is in
  \<open>getActivePeers\<close> at \<open>T0 + REGISTRY_TTL_MS + eps\<close>, for \<open>0 < eps\<close> and
  \<open>2 * eps \<le> REGISTRY_TTL_MS\<close>.
\<close>

theorem register_refresh:
  "registry_size (register (register reg u k1 T0) u k2 T1) = registry_size (register reg u k1 T0)
   \<and> map fst (registered (register (register reg u k1 T0) u k2 T1))
       = map fst (registered (register reg u k1 T0))
   \<and> Map_get (registered (register (register reg u k1 T0) u k2 T1)) u
       = Some \<lparr>url = u, kinds = k2, lastSeenMs = T1\<rparr>
   \<and> (0 < eps \<and> 2 * eps \<le> REGISTRY_TTL_MS \<and> normalizeUrl u' = normalizeUrl u
      \<longrightarrow> normalizeUrl u \<in> set (getActivePeers
              (register (register reg u k1 T0) u' k2 (T0 + REGISTRY_TTL_MS - eps))
              st (T0 + REGISTRY_TTL_MS + eps)))
   \<and> (u' \<notin> fst ` set (registered (register reg u k1 T0))
      \<longrightarrow> registry_size (register (register reg u k1 T0) u' k2 T1)
            = registry_size (register reg u k1 T0) + 1)"
proof (intro conjI impI)
  show "registry_size (register (register reg u k1 T0) u k2 T1) = registry_size (register reg u k1 T0)"
    by (simp add: register_size [of "register reg u k1 T0"] register_key_present)
  show "map fst (registered (register (register reg u k1 T0) u k2 T1))
       = map fst (registered (register reg u k1 T0))"
    by (simp add: register_keys [of "register reg u k1 T0"] register_key_present)
  show "Map_get (registered (register (register reg u k1 T0) u k2 T1)) u
       = Some \<lparr>url = u, kinds = k2, lastSeenMs = T1\<rparr>"
    by (simp add: Map_get_def register_registered update_conv')
next
  assume "0 < eps \<and> 2 * eps \<le> REGISTRY_TTL_MS \<and> normalizeUrl u' = normalizeUrl u"
  then show "normalizeUrl u \<in> set (getActivePeers
              (register (register reg u k1 T0) u' k2 (T0 + REGISTRY_TTL_MS - eps))
              st (T0 + REGISTRY_TTL_MS + eps))"
    by (intro register_active) auto
next
  assume "u' \<notin> fst ` set (registered (register reg u k1 T0))"
  then show "registry_size (register (register reg u k1 T0) u' k2 T1)
            = registry_size (register reg u k1 T0) + 1"
    by (simp add: register_size [of "register reg u k1 T0"])
qed

text \<open>
  The scenario of the repository's test \<^verbatim>\<open>re-registration refreshes lastSeenMs\<close>, with
  \<open>eps\<close> one second.
\<close>

theorem register_refresh_witness:
  "registry_size (register (register newPeerRegistry ''http://peer1:3000'' None 0)
                   ''http://peer1:3000'' None 119000) = 1
   \<and> normalizeUrl ''http://peer1:3000'' \<in> set (getActivePeers
        (register (register newPeerRegistry ''http://peer1:3000'' None 0)
           ''http://peer1:3000'' None (0 + REGISTRY_TTL_MS - 1000))
        [] (0 + REGISTRY_TTL_MS + 1000))
   \<and> registry_size (register (register newPeerRegistry ''http://peer1:3000'' None 0)
                   ''http://peer2:3000'' None 119000) = 2"
proof -
  note t = register_refresh [where reg = newPeerRegistry and u = "''http://peer1:3000''"
      and ?k1.0 = None and ?k2.0 = None and ?T0.0 = 0 and ?T1.0 = 119000 and st = "[]"]
  have s1: "registry_size (register newPeerRegistry ''http://peer1:3000'' None 0) = 1"
    by (simp add: getActivePeers_def register_def newPeerRegistry_def Map_set_def
      normalizeUrl_def Set_add_def registry_size_def)
  have c1: "registry_size (register (register newPeerRegistry ''http://peer1:3000'' None 0)
                   ''http://peer1:3000'' None 119000) = 1"
    using t [THEN conjunct1] s1 by simp
  have c2: "normalizeUrl ''http://peer1:3000'' \<in> set (getActivePeers
        (register (register newPeerRegistry ''http://peer1:3000'' None 0)
           ''http://peer1:3000'' None (0 + REGISTRY_TTL_MS - 1000))
        [] (0 + REGISTRY_TTL_MS + 1000))"
    by (rule t [where eps = 1000, THEN conjunct2, THEN conjunct2, THEN conjunct2, THEN conjunct1, THEN mp])
       (simp add: REGISTRY_TTL_MS_def)
  have "''http://peer2:3000'' \<notin> fst ` set (registered (register newPeerRegistry ''http://peer1:3000'' None 0))"
    by (simp add: getActivePeers_def register_def newPeerRegistry_def Map_set_def
      normalizeUrl_def Set_add_def registry_size_def)
  then have c3: "registry_size (register (register newPeerRegistry ''http://peer1:3000'' None 0)
                   ''http://peer2:3000'' None 119000) = 2"
    using t [where u' = "''http://peer2:3000''", THEN conjunct2, THEN conjunct2, THEN conjunct2, THEN conjunct2] s1
    by simp
  show ?thesis using c1 c2 c3 by blast
qed

text \<open>
  C9 as worded takes a trailing-slash variant for the same registry entry. Registering
  \<^verbatim>\<open>http://a\<close> and then \<^verbatim>\<open>http://a/\<close> leaves two entries.
\<close>

theorem register_variant_counterexample:
  "normalizeUrl ''http://a/'' = normalizeUrl ''http://a''
   \<and> registry_size (register newPeerRegistry ''http://a'' None 0) = 1
   \<and> registry_size (register (register newPeerRegistry ''http://a'' None 0) ''http://a/'' None 1000) = 2"
  by (simp add: getActivePeers_def register_def newPeerRegistry_def Map_set_def
      normalizeUrl_def Set_add_def registry_size_def)

section \<open>Sticky selection: record and look up\<close>




section \<open>Expired sticky entries\<close>

text \<open>
  C7, as the code has it. \<open>getPreferredPeer\<close> only reads: the router it leaves is the
  router it found, so the sizes are unchanged. When the payer of the body is absent or
  a string, its result is the peer of the live entry under the body's payer key, else
  of the live entry under the body's fingerprint key, else nothing; for any other
  payer value it throws. An entry whose \<open>expiresAt\<close> is not after the clock is a miss,
  and a peer that is returned belongs to an entry that has not expired. Expired entries
  leave the maps when \<open>cleanup\<close> runs, which keeps exactly the entries that expire
  later.
\<close>

theorem getPreferredPeer_reads_only:
  "snd (getPreferredPeer lc s b now) = s
   \<and> sticky_size (snd (getPreferredPeer lc s b now)) = sticky_size s
   \<and> fst (getPreferredPeer lc s b now)
       = (if payerReadable (getPayerFromBody b)
          then Inr (case Option.bind (payerKey lc b) (\<lambda>k. liveEntry (byPayer s) k now) of
                      Some e \<Rightarrow> Some (peer e)
                    | None \<Rightarrow> map_option peer
                                (Option.bind (getHeaderFromBody b) (\<lambda>k. liveEntry (byHeader s) k now)))
          else Inl TypeError)
   \<and> (Map_get m k = Some e \<and> expiresAt e \<le> now \<longrightarrow> liveEntry m k now = None)
   \<and> (fst (getPreferredPeer lc s b now) = Inr (Some x)
      \<longrightarrow> (\<exists>e \<in> snd ` (set (byPayer s) \<union> set (byHeader s)). peer e = x \<and> now < expiresAt e))
   \<and> byPayer (sticky_cleanup s now) = filter (\<lambda>kv. now < expiresAt (snd kv)) (byPayer s)
   \<and> byHeader (sticky_cleanup s now) = filter (\<lambda>kv. now < expiresAt (snd kv)) (byHeader s)"
proof (intro conjI impI)
  show "snd (getPreferredPeer lc s b now) = s" by (rule getPreferredPeer_snd)
  then show "sticky_size (snd (getPreferredPeer lc s b now)) = sticky_size s" by simp
  show "fst (getPreferredPeer lc s b now)
       = (if payerReadable (getPayerFromBody b)
          then Inr (case Option.bind (payerKey lc b) (\<lambda>k. liveEntry (byPayer s) k now) of
                      Some e \<Rightarrow> Some (peer e)
                    | None \<Rightarrow> map_option peer
                                (Option.bind (getHeaderFromBody b) (\<lambda>k. liveEntry (byHeader s) k now)))
          else Inl TypeError)"
    by (rule getPreferredPeer_fst)
  show "byPayer (sticky_cleanup s now) = filter (\<lambda>kv. now < expiresAt (snd kv)) (byPayer s)"
    by (simp add: sticky_cleanup_def case_prod_unfold not_le)
  show "byHeader (sticky_cleanup s now) = filter (\<lambda>kv. now < expiresAt (snd kv)) (byHeader s)"
    by (simp add: sticky_cleanup_def case_prod_unfold not_le)
next
  assume "Map_get m k = Some e \<and> expiresAt e \<le> now"
  then show "liveEntry m k now = None" by (simp add: liveEntry_def)
next
  assume a: "fst (getPreferredPeer lc s b now) = Inr (Some x)"
  then have rd: "payerReadable (getPayerFromBody b)"
    by (simp add: getPreferredPeer_fst split: if_splits)
  show "\<exists>e \<in> snd ` (set (byPayer s) \<union> set (byHeader s)). peer e = x \<and> now < expiresAt e"
  proof (cases "Option.bind (payerKey lc b) (\<lambda>k. liveEntry (byPayer s) k now)")
    case (Some e)
    then obtain k where "liveEntry (byPayer s) k now = Some e" by (cases "payerKey lc b") auto
    then have "(k, e) \<in> set (byPayer s)" "now < expiresAt e" by (simp_all add: liveEntry_mem)
    moreover have "peer e = x" using a rd Some by (simp add: getPreferredPeer_fst)
    ultimately show ?thesis by force
  next
    case None
    then have "map_option peer (Option.bind (getHeaderFromBody b) (\<lambda>k. liveEntry (byHeader s) k now)) = Some x"
      using a rd by (simp add: getPreferredPeer_fst)
    then obtain e where e: "Option.bind (getHeaderFromBody b) (\<lambda>k. liveEntry (byHeader s) k now) = Some e"
        "peer e = x" by auto
    then obtain k where "liveEntry (byHeader s) k now = Some e" by (cases "getHeaderFromBody b") auto
    then have "(k, e) \<in> set (byHeader s)" "now < expiresAt e" by (simp_all add: liveEntry_mem)
    then show ?thesis using e(2) by force
  qed
qed

text \<open>An instance: a selection recorded at 0, looked up at 59999; an entry read at its expiry.\<close>

theorem getPreferredPeer_reads_only_witness:
  "fst (getPreferredPeer asciiLower
          (snd (recordSelection asciiLower newStickyRouter ''http://peer1:3000'' (payerBody ''0xab'')
                  (JObj []) 0))
          (payerBody ''0xab'') 59999) = Inr (Some ''http://peer1:3000'')
   \<and> (\<exists>e. e \<in> snd ` (set (byPayer (snd (recordSelection asciiLower newStickyRouter ''http://peer1:3000''
                                         (payerBody ''0xab'') (JObj []) 0)))
                 \<union> set (byHeader (snd (recordSelection asciiLower newStickyRouter ''http://peer1:3000''
                                         (payerBody ''0xab'') (JObj []) 0))))
          \<and> peer e = ''http://peer1:3000'' \<and> 59999 < expiresAt e)
   \<and> liveEntry [(''0xab'', \<lparr>peer = ''http://peer1:3000'', expiresAt = 60000\<rparr>)] ''0xab'' 60000 = None"
proof -
  let ?s = "snd (recordSelection asciiLower newStickyRouter ''http://peer1:3000'' (payerBody ''0xab'')
                   (JObj []) 0)"
  note t = getPreferredPeer_reads_only [where s = ?s and b = "payerBody ''0xab''" and now = 59999
      and x = "''http://peer1:3000''" and lc = asciiLower]
  have c1: "fst (getPreferredPeer asciiLower ?s (payerBody ''0xab'') 59999) = Inr (Some ''http://peer1:3000'')"
    unfolding t [THEN conjunct2, THEN conjunct2, THEN conjunct1]
    by (simp add: payerKey_def payerBody_payer payerBody_header lower_hex sticky_example_record
        liveEntry_def Map_get_def SELECTION_TTL_MS_def)
  have c2: "\<exists>e \<in> snd ` (set (byPayer ?s) \<union> set (byHeader ?s)).
              peer e = ''http://peer1:3000'' \<and> 59999 < expiresAt e"
    by (rule t [THEN conjunct2, THEN conjunct2, THEN conjunct2, THEN conjunct2, THEN conjunct1, THEN mp])
       (rule c1)
  have c3: "liveEntry [(''0xab'', \<lparr>peer = ''http://peer1:3000'', expiresAt = 60000\<rparr>)] ''0xab'' 60000 = None"
    by (rule getPreferredPeer_reads_only [where e = "\<lparr>peer = ''http://peer1:3000'', expiresAt = 60000\<rparr>",
          THEN conjunct2, THEN conjunct2, THEN conjunct2, THEN conjunct1, THEN mp])
       (simp add: Map_get_def)
  show ?thesis using c1 c2 c3 by blast
qed

text \<open>
  C7 as worded has the lookup remove the expired entry. After a lookup at the expiry
  time the payer map still holds the entry; the sweep is what removes it.
\<close>

theorem no_lazy_removal_counterexample:
  "fst (getPreferredPeer asciiLower
          (snd (recordSelection asciiLower newStickyRouter ''http://peer1:3000'' (payerBody ''0xab'')
                  (JObj []) 0))
          (payerBody ''0xab'') 60000) = Inr None
   \<and> sticky_size (snd (getPreferredPeer asciiLower
          (snd (recordSelection asciiLower newStickyRouter ''http://peer1:3000'' (payerBody ''0xab'')
                  (JObj []) 0))
          (payerBody ''0xab'') 60000)) = (1, 0)
   \<and> sticky_size (sticky_cleanup
          (snd (recordSelection asciiLower newStickyRouter ''http://peer1:3000'' (payerBody ''0xab'')
                  (JObj []) 0))
          60000) = (0, 0)"
  by (simp add: getPreferredPeer_fst getPreferredPeer_snd payerKey_def payerBody_payer
      payerBody_header lower_hex sticky_example_record liveEntry_def Map_get_def
      SELECTION_TTL_MS_def sticky_size_def sticky_cleanup_def)

section \<open>The fallback order\<close>

text \<open>
  C2, as the code has it. Let \<open>shuffle\<close> return a permutation of its argument, as
  sorting does, and let the active peers be free of repetition.
  \<^item> For a preferred peer that is one of the active peers, \<open>rotateToNext\<close> yields a
    permutation of the active peers (each once, no other URL) that starts with the
    preferred peer; with two or more peers the rest is the shuffled list of the others.
  \<^item> The peer \<open>pickSelectedPeerForVerify\<close> draws is one of the active peers, so the
    order the verify handler builds from \<open>getActivePeers\<close> is always such a permutation
    (the last part of the statement).
  \<^item> When the sticky lookup returns (it throws for a payer that is neither absent nor a
    string, and then there is no order), the order of settle is such a permutation,
    starting with the sticky peer or else the drawn one, when the sticky peer (if any)
    is one of the active peers.
\<close>

theorem fallback_order_permutation:
  "((\<forall>xs. mset (shuffle xs) = mset xs) \<and> distinct peers \<and> preferred \<in> set peers
      \<longrightarrow> mset (rotateToNext shuffle peers preferred) = mset peers
          \<and> distinct (rotateToNext shuffle peers preferred)
          \<and> set (rotateToNext shuffle peers preferred) = set peers
          \<and> hd (rotateToNext shuffle peers preferred) = preferred)
   \<and> (2 \<le> length peers
      \<longrightarrow> rotateToNext shuffle peers preferred
            = preferred # shuffle (filter (\<lambda>p. p \<noteq> preferred) peers))
   \<and> (0 \<le> u \<and> u < 1 \<and> peers \<noteq> [] \<longrightarrow> pickSelectedPeerForVerify peers u \<in> set peers)
   \<and> ((\<forall>xs. mset (shuffle xs) = mset xs) \<and> distinct peers \<and> peers \<noteq> [] \<and> 0 \<le> u \<and> u < 1
        \<and> fst (getPreferredPeer lc sticky forwardBody now) = Inr found
        \<and> (\<forall>p. found = Some p \<longrightarrow> p \<in> set peers)
      \<longrightarrow> settleOrder lc peers sticky u shuffle now forwardBody
            = Inr (rotateToNext shuffle peers
                     (case found of Some p \<Rightarrow> p | None \<Rightarrow> pickSelectedPeerForVerify peers u))
          \<and> mset (rotateToNext shuffle peers
                     (case found of Some p \<Rightarrow> p | None \<Rightarrow> pickSelectedPeerForVerify peers u))
              = mset peers
          \<and> hd (rotateToNext shuffle peers
                     (case found of Some p \<Rightarrow> p | None \<Rightarrow> pickSelectedPeerForVerify peers u))
              = (case found of Some p \<Rightarrow> p | None \<Rightarrow> pickSelectedPeerForVerify peers u))
   \<and> ((\<forall>xs. mset (shuffle xs) = mset xs) \<and> 0 \<le> u \<and> u < 1
        \<and> getActivePeers registry httpPeers now \<noteq> []
      \<longrightarrow> mset (rotateToNext shuffle (getActivePeers registry httpPeers now)
                  (pickSelectedPeerForVerify (getActivePeers registry httpPeers now) u))
            = mset (getActivePeers registry httpPeers now)
          \<and> hd (rotateToNext shuffle (getActivePeers registry httpPeers now)
                  (pickSelectedPeerForVerify (getActivePeers registry httpPeers now) u))
            = pickSelectedPeerForVerify (getActivePeers registry httpPeers now) u)"
proof (intro conjI impI)
  assume a: "(\<forall>xs. mset (shuffle xs) = mset xs) \<and> distinct peers \<and> preferred \<in> set peers"
  then show m: "mset (rotateToNext shuffle peers preferred) = mset peers"
    by (simp add: rotateToNext_mset)
  show "distinct (rotateToNext shuffle peers preferred)"
    using m a by (metis mset_eq_imp_distinct_iff)
  show "set (rotateToNext shuffle peers preferred) = set peers"
    using m by (rule mset_eq_setD)
  show "hd (rotateToNext shuffle peers preferred) = preferred"
    using a by (simp add: rotateToNext_hd)
next
  assume "2 \<le> length peers"
  then show "rotateToNext shuffle peers preferred
            = preferred # shuffle (filter (\<lambda>p. p \<noteq> preferred) peers)"
    by (simp add: rotateToNext_def)
next
  assume "0 \<le> u \<and> u < 1 \<and> peers \<noteq> []"
  then show "pickSelectedPeerForVerify peers u \<in> set peers"
    by (simp add: pickSelectedPeerForVerify_mem)
next
  assume a: "(\<forall>xs. mset (shuffle xs) = mset xs) \<and> distinct peers \<and> peers \<noteq> [] \<and> 0 \<le> u \<and> u < 1
        \<and> fst (getPreferredPeer lc sticky forwardBody now) = Inr found
        \<and> (\<forall>p. found = Some p \<longrightarrow> p \<in> set peers)"
  define preferred where
    "preferred = (case found of Some p \<Rightarrow> p | None \<Rightarrow> pickSelectedPeerForVerify peers u)"
  have mem: "preferred \<in> set peers"
    using a by (auto simp: preferred_def pickSelectedPeerForVerify_mem split: option.splits)
  show "settleOrder lc peers sticky u shuffle now forwardBody
            = Inr (rotateToNext shuffle peers
                     (case found of Some p \<Rightarrow> p | None \<Rightarrow> pickSelectedPeerForVerify peers u))"
    using a by (simp add: settleOrder_def)
  show "mset (rotateToNext shuffle peers
                     (case found of Some p \<Rightarrow> p | None \<Rightarrow> pickSelectedPeerForVerify peers u))
              = mset peers"
    using a mem by (simp add: rotateToNext_mset flip: preferred_def)
  show "hd (rotateToNext shuffle peers
                     (case found of Some p \<Rightarrow> p | None \<Rightarrow> pickSelectedPeerForVerify peers u))
              = (case found of Some p \<Rightarrow> p | None \<Rightarrow> pickSelectedPeerForVerify peers u)"
    using mem by (simp add: rotateToNext_hd flip: preferred_def)
next
  assume a: "(\<forall>xs. mset (shuffle xs) = mset xs) \<and> 0 \<le> u \<and> u < 1
        \<and> getActivePeers registry httpPeers now \<noteq> []"
  then have mem: "pickSelectedPeerForVerify (getActivePeers registry httpPeers now) u
      \<in> set (getActivePeers registry httpPeers now)"
    by (simp add: pickSelectedPeerForVerify_mem)
  show "mset (rotateToNext shuffle (getActivePeers registry httpPeers now)
                  (pickSelectedPeerForVerify (getActivePeers registry httpPeers now) u))
            = mset (getActivePeers registry httpPeers now)"
    using a mem by (intro rotateToNext_mset) (auto simp: getActivePeers_distinct)
  show "hd (rotateToNext shuffle (getActivePeers registry httpPeers now)
                  (pickSelectedPeerForVerify (getActivePeers registry httpPeers now) u))
            = pickSelectedPeerForVerify (getActivePeers registry httpPeers now) u"
    using mem by (rule rotateToNext_hd)
qed

text \<open>
  An instance with three peers, \<open>rev\<close> as the shuffle, and a sticky selection of an
  active peer.
\<close>

theorem fallback_order_permutation_witness:
  "mset (rotateToNext rev [''http://a'', ''http://b'', ''http://c''] ''http://b'')
     = mset [''http://a'', ''http://b'', ''http://c'']
   \<and> hd (rotateToNext rev [''http://a'', ''http://b'', ''http://c''] ''http://b'') = ''http://b''
   \<and> rotateToNext rev [''http://a'', ''http://b'', ''http://c''] ''http://b''
       = [''http://b'', ''http://c'', ''http://a'']
   \<and> pickSelectedPeerForVerify [''http://a'', ''http://b'', ''http://c''] (1 / 2)
       \<in> set [''http://a'', ''http://b'', ''http://c'']
   \<and> settleOrder asciiLower [''http://a'', ''http://b'', ''http://c'']
         (snd (recordSelection asciiLower newStickyRouter ''http://c'' (payerBody ''0xab'') (JObj []) 0))
         (1 / 2) rev 1000 (payerBody ''0xab'')
       = Inr (rotateToNext rev [''http://a'', ''http://b'', ''http://c''] ''http://c'')
   \<and> hd (rotateToNext rev [''http://a'', ''http://b'', ''http://c''] ''http://c'') = ''http://c''
   \<and> mset (rotateToNext rev [''http://a'', ''http://b'', ''http://c''] ''http://c'')
       = mset [''http://a'', ''http://b'', ''http://c'']"
proof -
  let ?peers = "[''http://a'', ''http://b'', ''http://c'']"
  let ?sticky = "snd (recordSelection asciiLower newStickyRouter ''http://c'' (payerBody ''0xab'')
                        (JObj []) 0)"
  note t = fallback_order_permutation [where shuffle = rev and peers = ?peers
      and preferred = "''http://b''" and u = "1 / 2" and sticky = ?sticky and now = 1000
      and forwardBody = "payerBody ''0xab''" and lc = asciiLower and found = "Some ''http://c''"]
  have h1: "(\<forall>xs::string list. mset (rev xs) = mset xs) \<and> distinct ?peers \<and> ''http://b'' \<in> set ?peers"
    by simp
  have c1: "mset (rotateToNext rev ?peers ''http://b'') = mset ?peers
      \<and> distinct (rotateToNext rev ?peers ''http://b'')
      \<and> set (rotateToNext rev ?peers ''http://b'') = set ?peers
      \<and> hd (rotateToNext rev ?peers ''http://b'') = ''http://b''"
    using t [THEN conjunct1] h1 by blast
  have c2: "rotateToNext rev ?peers ''http://b'' = [''http://b'', ''http://c'', ''http://a'']"
    using t [THEN conjunct2, THEN conjunct1] by simp
  have c3: "pickSelectedPeerForVerify ?peers (1 / 2) \<in> set ?peers"
    by (rule t [THEN conjunct2, THEN conjunct2, THEN conjunct1, THEN mp]) simp
  have look: "fst (getPreferredPeer asciiLower ?sticky (payerBody ''0xab'') 1000)
      = Inr (Some ''http://c'')"
    by (simp add: sticky_example_lookup SELECTION_TTL_MS_def)
  have h4: "(\<forall>xs::string list. mset (rev xs) = mset xs) \<and> distinct ?peers \<and> ?peers \<noteq> []
      \<and> (0::real) \<le> 1 / 2 \<and> (1::real) / 2 < 1
      \<and> fst (getPreferredPeer asciiLower ?sticky (payerBody ''0xab'') 1000) = Inr (Some ''http://c'')
      \<and> (\<forall>p. Some ''http://c'' = Some p \<longrightarrow> p \<in> set ?peers)"
    using look by simp
  have c4: "settleOrder asciiLower ?peers ?sticky (1 / 2) rev 1000 (payerBody ''0xab'')
        = Inr (rotateToNext rev ?peers ''http://c'')
      \<and> mset (rotateToNext rev ?peers ''http://c'') = mset ?peers
      \<and> hd (rotateToNext rev ?peers ''http://c'') = ''http://c''"
    using t [THEN conjunct2, THEN conjunct2, THEN conjunct2, THEN conjunct1] h4 by simp
  show ?thesis using c1 c2 c3 c4 by blast
qed

text \<open>
  C2 as worded covers every sticky peer. The sticky router may hold a peer that has left
  the active set: \<^verbatim>\<open>http://c\<close>, registered at 0, is active at 110000, when a verify
  selects it, and no longer at 125000, while the selection lives until 170000. The order
  of a settle at 125000 then starts with \<^verbatim>\<open>http://c\<close>, which is not an active peer, and
  has three elements for two active peers; with a single active peer \<open>rotateToNext\<close>
  returns that peer alone and the preferred peer is not first.
\<close>

theorem stale_sticky_peer_counterexample:
  "getActivePeers (register newPeerRegistry ''http://c'' None 0) [''http://a'', ''http://b''] 110000
     = [''http://a'', ''http://b'', ''http://c'']
   \<and> getActivePeers (register newPeerRegistry ''http://c'' None 0) [''http://a'', ''http://b''] 125000
     = [''http://a'', ''http://b'']
   \<and> settleOrder asciiLower [''http://a'', ''http://b'']
        (snd (recordSelection asciiLower newStickyRouter ''http://c'' (payerBody ''0xab'') (JObj []) 110000))
        0 id 125000 (payerBody ''0xab'')
       = Inr [''http://c'', ''http://a'', ''http://b'']
   \<and> getActivePeers (register newPeerRegistry ''http://c'' None 0) [''http://a''] 125000 = [''http://a'']
   \<and> settleOrder asciiLower [''http://a'']
        (snd (recordSelection asciiLower newStickyRouter ''http://c'' (payerBody ''0xab'') (JObj []) 110000))
        0 id 125000 (payerBody ''0xab'')
       = Inr [''http://a'']"
  by (simp add: settleOrder_def sticky_example_lookup SELECTION_TTL_MS_def rotateToNext_def
      getActivePeers_def register_def newPeerRegistry_def Map_set_def normalizeUrl_def Set_add_def
      REGISTRY_TTL_MS_def)

section \<open>Verify: first success wins\<close>

text \<open>
  C1, at a request whose payer is not a string. The static peers \<^verbatim>\<open>http://a\<close> and
  \<^verbatim>\<open>http://b\<close> both answer the verify call with status 200 and a body that names no
  payer, and the request carries the number 5 at
  \<^verbatim>\<open>paymentPayload.payload.authorization.from\<close>. \<open>recordSelection\<close> takes the payer from
  the request and throws at \<^verbatim>\<open>toLowerCase\<close>; the \<^verbatim>\<open>catch\<close> around the call of the peer,
  written for transport errors, takes the exception. So the response of \<^verbatim>\<open>http://a\<close> is
  not returned, \<^verbatim>\<open>http://b\<close> is called as well, its response is lost the same way, and
  the answer is 503 \<^verbatim>\<open>Verification unavailable\<close> with nothing recorded. With a string
  in that place the handler does what C1 says: the response of \<^verbatim>\<open>http://a\<close> is returned,
  the selection of \<^verbatim>\<open>http://a\<close> is on file under the lower-cased payer, and
  \<^verbatim>\<open>http://b\<close> is not called.
\<close>

theorem verify_success_dropped:
  "allOkNet ''http://a/verify'' (fromBody (JNum 5)) VERIFY_TIMEOUT
     = Fulfilled \<lparr>status = 200, body = JObj [(''isValid'', JBool True)]\<rparr>
   \<and> verify asciiLower newPeerRegistry [''http://a'', ''http://b''] newStickyRouter allOkNet 0 id 0 7
        (fromBody (JNum 5))
     = (\<lparr>status = 503, body = JObj [(''error'', JStr ''Verification unavailable'')]\<rparr>,
        newStickyRouter, [''http://a/verify'', ''http://b/verify''])
   \<and> verify asciiLower newPeerRegistry [''http://a'', ''http://b''] newStickyRouter allOkNet 0 id 0 7
        (payerBody ''0xAb'')
     = (\<lparr>status = 200, body = JObj [(''isValid'', JBool True)]\<rparr>,
        \<lparr>byPayer = [(''0xab'', \<lparr>peer = ''http://a'', expiresAt = 60007\<rparr>)], byHeader = []\<rparr>,
        [''http://a/verify''])"
proof -
  have order: "rotateToNext id [''http://a'', ''http://b'']
        (pickSelectedPeerForVerify [''http://a'', ''http://b''] 0) = [''http://a'', ''http://b'']"
    by (simp add: pick_first rotate_examples)
  have thrown: "recordSelection asciiLower newStickyRouter q (fromBody (JNum 5))
        (JObj [(''isValid'', JBool True)]) 7 = (Inl TypeError, newStickyRouter)" for q
    by (simp add: recordSelection_def no_payer_in_response fromBody_payer callToLowerCase_def)
  have recorded: "recordSelection asciiLower newStickyRouter ''http://a'' (payerBody ''0xAb'')
        (JObj [(''isValid'', JBool True)]) 7
      = (Inr (), \<lparr>byPayer = [(''0xab'', \<lparr>peer = ''http://a'', expiresAt = 60007\<rparr>)],
                  byHeader = []\<rparr>)"
    by (simp add: recordSelection_def no_payer_in_response payerBody_payer payerBody_header
        callToLowerCase_def lower_0xAb Map_set_def newStickyRouter_def SELECTION_TTL_MS_def)
  have c1: "allOkNet ''http://a/verify'' (fromBody (JNum 5)) VERIFY_TIMEOUT
     = Fulfilled \<lparr>status = 200, body = JObj [(''isValid'', JBool True)]\<rparr>"
    by (rule allOkNet_calls)
  have c2: "verify asciiLower newPeerRegistry [''http://a'', ''http://b''] newStickyRouter allOkNet 0 id 0 7
        (fromBody (JNum 5))
     = (\<lparr>status = 503, body = JObj [(''error'', JStr ''Verification unavailable'')]\<rparr>,
        newStickyRouter, [''http://a/verify'', ''http://b/verify''])"
    by (simp add: verify_def Let_def order static_peers_only fromBody_forward allOkNet_calls
        thrown normalizeUrl_def verificationUnavailable_def)
  have c3: "verify asciiLower newPeerRegistry [''http://a'', ''http://b''] newStickyRouter allOkNet 0 id 0 7
        (payerBody ''0xAb'')
     = (\<lparr>status = 200, body = JObj [(''isValid'', JBool True)]\<rparr>,
        \<lparr>byPayer = [(''0xab'', \<lparr>peer = ''http://a'', expiresAt = 60007\<rparr>)], byHeader = []\<rparr>,
        [''http://a/verify''])"
    by (simp add: verify_def Let_def order static_peers_only payerBody_forward allOkNet_calls
        recorded normalizeUrl_def)
  show ?thesis using c1 c2 c3 by blast
qed

section \<open>Verify: no peer succeeds\<close>

text \<open>
  C4. With no active peer the verify handler answers 503 with
  \<^verbatim>\<open>{error: "No peers configured"}\<close> and calls nobody. With active peers of which none
  comes back with status 200, every peer of the fallback order is called once, the
  sticky router is untouched, and the answer is the last response that a peer gave
  (status and body unchanged), or 503 with \<^verbatim>\<open>{error: "Verification unavailable"}\<close> when
  no peer gave a response. Calls that fail in transport contribute no response, so they
  never are the answer.
\<close>

theorem verify_failure:
  "(getActivePeers registry httpPeers now = []
     \<longrightarrow> verify lc registry httpPeers sticky net u shuffle now tRec reqBody = (noPeersVerify, sticky, []))
   \<and> (getActivePeers registry httpPeers now \<noteq> []
      \<and> rotateToNext shuffle (getActivePeers registry httpPeers now)
           (pickSelectedPeerForVerify (getActivePeers registry httpPeers now) u) = order
      \<and> (\<forall>q \<in> set order. \<not> succeeded (net (normalizeUrl q @ ''/verify'')
                                          (normalizeForwardBody reqBody) VERIFY_TIMEOUT))
     \<longrightarrow> verify lc registry httpPeers sticky net u shuffle now tRec reqBody
          = ((if answers net ''/verify'' (normalizeForwardBody reqBody) VERIFY_TIMEOUT order = []
              then verificationUnavailable
              else last (answers net ''/verify'' (normalizeForwardBody reqBody) VERIFY_TIMEOUT order)),
             sticky, map (\<lambda>q. normalizeUrl q @ ''/verify'') order))
   \<and> noPeersVerify = \<lparr>status = 503, body = JObj [(''error'', JStr ''No peers configured'')]\<rparr>
   \<and> verificationUnavailable
       = \<lparr>status = 503, body = JObj [(''error'', JStr ''Verification unavailable'')]\<rparr>"
proof (intro conjI impI)
  assume "getActivePeers registry httpPeers now = []"
  then show "verify lc registry httpPeers sticky net u shuffle now tRec reqBody = (noPeersVerify, sticky, [])"
    by (simp add: verify_def)
next
  assume a: "getActivePeers registry httpPeers now \<noteq> []
      \<and> rotateToNext shuffle (getActivePeers registry httpPeers now)
           (pickSelectedPeerForVerify (getActivePeers registry httpPeers now) u) = order
      \<and> (\<forall>q \<in> set order. \<not> succeeded (net (normalizeUrl q @ ''/verify'')
                                          (normalizeForwardBody reqBody) VERIFY_TIMEOUT))"
  then have "verify lc registry httpPeers sticky net u shuffle now tRec reqBody
      = verifyLoop lc net (normalizeForwardBody reqBody) tRec order sticky None []"
    by (simp add: verify_def Let_def)
  then show "verify lc registry httpPeers sticky net u shuffle now tRec reqBody
          = ((if answers net ''/verify'' (normalizeForwardBody reqBody) VERIFY_TIMEOUT order = []
              then verificationUnavailable
              else last (answers net ''/verify'' (normalizeForwardBody reqBody) VERIFY_TIMEOUT order)),
             sticky, map (\<lambda>q. normalizeUrl q @ ''/verify'') order)"
    using a by (simp add: verifyLoop_all_fail)
next
  show "noPeersVerify = \<lparr>status = 503, body = JObj [(''error'', JStr ''No peers configured'')]\<rparr>"
    by (simp add: noPeersVerify_def)
  show "verificationUnavailable
       = \<lparr>status = 503, body = JObj [(''error'', JStr ''Verification unavailable'')]\<rparr>"
    by (simp add: verificationUnavailable_def)
qed

text \<open>
  Instances: no peer; \<^verbatim>\<open>http://a\<close> answering 500 before \<^verbatim>\<open>http://c\<close> fails in transport;
  \<^verbatim>\<open>http://c\<close> alone.
\<close>

theorem verify_failure_witness:
  "verify asciiLower newPeerRegistry [] newStickyRouter exampleNet 0 id 0 7 (payerBody ''0xab'')
     = (\<lparr>status = 503, body = JObj [(''error'', JStr ''No peers configured'')]\<rparr>, newStickyRouter, [])
   \<and> verify asciiLower newPeerRegistry [''http://a'', ''http://c''] newStickyRouter exampleNet 0 id 0 7
        (payerBody ''0xab'')
     = (\<lparr>status = 500, body = JObj [(''error'', JStr ''boom'')]\<rparr>, newStickyRouter,
        [''http://a/verify'', ''http://c/verify''])
   \<and> verify asciiLower newPeerRegistry [''http://c''] newStickyRouter exampleNet 0 id 0 7
        (payerBody ''0xab'')
     = (\<lparr>status = 503, body = JObj [(''error'', JStr ''Verification unavailable'')]\<rparr>,
        newStickyRouter, [''http://c/verify''])"
proof -
  note t = verify_failure [where registry = newPeerRegistry and sticky = newStickyRouter
      and net = exampleNet and u = 0 and shuffle = id and lc = asciiLower and now = 0 and tRec = 7
      and reqBody = "payerBody ''0xab''"]
  have c1: "verify asciiLower newPeerRegistry [] newStickyRouter exampleNet 0 id 0 7 (payerBody ''0xab'')
     = (noPeersVerify, newStickyRouter, [])"
    by (rule t [THEN conjunct1, THEN mp]) (simp add: static_peers_only)
  have h2: "getActivePeers newPeerRegistry [''http://a'', ''http://c''] 0 \<noteq> []
      \<and> rotateToNext id (getActivePeers newPeerRegistry [''http://a'', ''http://c''] 0)
           (pickSelectedPeerForVerify (getActivePeers newPeerRegistry [''http://a'', ''http://c''] 0) 0)
           = [''http://a'', ''http://c'']
      \<and> (\<forall>q \<in> set [''http://a'', ''http://c'']. \<not> succeeded (exampleNet (normalizeUrl q @ ''/verify'')
                                          (normalizeForwardBody (payerBody ''0xab'')) VERIFY_TIMEOUT))"
    by (simp add: static_peers_only pick_first rotate_examples exampleNet_calls succeeded_def)
  have a2: "answers exampleNet ''/verify'' (normalizeForwardBody (payerBody ''0xab'')) VERIFY_TIMEOUT
      [''http://a'', ''http://c''] = [\<lparr>status = 500, body = JObj [(''error'', JStr ''boom'')]\<rparr>]"
    by (simp add: answers_def exampleNet_calls)
  have c2: "verify asciiLower newPeerRegistry [''http://a'', ''http://c''] newStickyRouter exampleNet 0 id 0 7
        (payerBody ''0xab'')
     = (\<lparr>status = 500, body = JObj [(''error'', JStr ''boom'')]\<rparr>, newStickyRouter,
        [''http://a/verify'', ''http://c/verify''])"
    using t [where httpPeers = "[''http://a'', ''http://c'']" and order = "[''http://a'', ''http://c'']",
        THEN conjunct2, THEN conjunct1] h2
    by (simp add: a2 normalizeUrl_def)
  have h3: "getActivePeers newPeerRegistry [''http://c''] 0 \<noteq> []
      \<and> rotateToNext id (getActivePeers newPeerRegistry [''http://c''] 0)
           (pickSelectedPeerForVerify (getActivePeers newPeerRegistry [''http://c''] 0) 0)
           = [''http://c'']
      \<and> (\<forall>q \<in> set [''http://c'']. \<not> succeeded (exampleNet (normalizeUrl q @ ''/verify'')
                                          (normalizeForwardBody (payerBody ''0xab'')) VERIFY_TIMEOUT))"
    by (simp add: static_peers_only pick_first rotate_examples exampleNet_calls succeeded_def)
  have a3: "answers exampleNet ''/verify'' (normalizeForwardBody (payerBody ''0xab'')) VERIFY_TIMEOUT
      [''http://c''] = []"
    by (simp add: answers_def exampleNet_calls)
  have c3: "verify asciiLower newPeerRegistry [''http://c''] newStickyRouter exampleNet 0 id 0 7
        (payerBody ''0xab'')
     = (verificationUnavailable, newStickyRouter, [''http://c/verify''])"
    using t [where httpPeers = "[''http://c'']" and order = "[''http://c'']",
        THEN conjunct2, THEN conjunct1] h3
    by (simp add: a3 normalizeUrl_def)
  show ?thesis
    using c1 c2 c3 by (simp add: noPeersVerify_def verificationUnavailable_def)
qed

section \<open>Settle: no peer succeeds\<close>

text \<open>
  C5, at a request whose payer is not a string. The static peers are \<^verbatim>\<open>http://a\<close>, which
  answers the settle call with status 400, and \<^verbatim>\<open>http://b\<close>, whose call fails in
  transport: every peer fails. For a request that carries the number 5 at
  \<^verbatim>\<open>paymentPayload.payload.authorization.from\<close> the handler throws at \<^verbatim>\<open>toLowerCase\<close>
  in \<open>getPreferredPeer\<close>, which it calls outside any \<^verbatim>\<open>try\<close>: no peer is called and the
  503 body of C5 is not sent. With a string in that place, and with no peers at all,
  the handler answers as C5 says.
\<close>

theorem settle_throws_before_forwarding:
  "getActivePeers newPeerRegistry [''http://a'', ''http://b''] 0 = [''http://a'', ''http://b'']
   \<and> \<not> succeeded (exampleNet ''http://a/settle'' (fromBody (JNum 5)) SETTLE_TIMEOUT)
   \<and> \<not> succeeded (exampleNet ''http://b/settle'' (fromBody (JNum 5)) SETTLE_TIMEOUT)
   \<and> settle asciiLower newPeerRegistry [''http://a'', ''http://b''] newStickyRouter exampleNet 0 id 0
        (fromBody (JNum 5))
     = (Inl TypeError, [])
   \<and> settle asciiLower newPeerRegistry [''http://a'', ''http://b''] newStickyRouter exampleNet 0 id 0
        (payerBody ''0xab'')
     = (Inr \<lparr>status = 503,
             body = JObj [(''success'', JBool False), (''error'', JStr ''Settle unavailable''),
                          (''txHash'', JNull), (''networkId'', JNull)]\<rparr>,
        [''http://a/settle'', ''http://b/settle''])
   \<and> settle asciiLower newPeerRegistry [] newStickyRouter exampleNet 0 id 0 (fromBody (JNum 5))
     = (Inr \<lparr>status = 503,
             body = JObj [(''success'', JBool False), (''error'', JStr ''No peers configured''),
                          (''txHash'', JNull), (''networkId'', JNull)]\<rparr>, [])"
proof -
  have c1: "getActivePeers newPeerRegistry [''http://a'', ''http://b''] 0 = [''http://a'', ''http://b'']"
    by (simp add: static_peers_only)
  have c2: "\<not> succeeded (exampleNet ''http://a/settle'' (fromBody (JNum 5)) SETTLE_TIMEOUT)"
    "\<not> succeeded (exampleNet ''http://b/settle'' (fromBody (JNum 5)) SETTLE_TIMEOUT)"
    by (simp_all add: exampleNet_def succeeded_def)
  have c3: "settle asciiLower newPeerRegistry [''http://a'', ''http://b''] newStickyRouter exampleNet 0 id 0
        (fromBody (JNum 5)) = (Inl TypeError, [])"
    by (rule settle_throws) (simp_all add: static_peers_only fromBody_forward fromBody_payer)
  have look: "fst (getPreferredPeer asciiLower newStickyRouter (payerBody ''0xab'') 0) = Inr None"
    by (simp add: getPreferredPeer_fst payerBody_payer payerBody_header payerKey_def
        newStickyRouter_def liveEntry_def Map_get_def)
  have order: "settleOrder asciiLower [''http://a'', ''http://b''] newStickyRouter 0 id 0
        (payerBody ''0xab'') = Inr [''http://a'', ''http://b'']"
    by (simp add: settleOrder_def look pick_first rotate_examples)
  have "settle asciiLower newPeerRegistry [''http://a'', ''http://b''] newStickyRouter exampleNet 0 id 0
        (payerBody ''0xab'')
     = (Inr (settleError ''Settle unavailable''),
        map (\<lambda>q. normalizeUrl q @ ''/settle'') [''http://a'', ''http://b''])"
    by (rule settle_all_fail)
       (simp_all add: static_peers_only payerBody_forward order exampleNet_calls succeeded_def)
  then have c4: "settle asciiLower newPeerRegistry [''http://a'', ''http://b''] newStickyRouter exampleNet 0 id 0
        (payerBody ''0xab'')
     = (Inr \<lparr>status = 503,
             body = JObj [(''success'', JBool False), (''error'', JStr ''Settle unavailable''),
                          (''txHash'', JNull), (''networkId'', JNull)]\<rparr>,
        [''http://a/settle'', ''http://b/settle''])"
    by (simp add: settleError_def normalizeUrl_def)
  have c5: "settle asciiLower newPeerRegistry [] newStickyRouter exampleNet 0 id 0 (fromBody (JNum 5))
     = (Inr \<lparr>status = 503,
             body = JObj [(''success'', JBool False), (''error'', JStr ''No peers configured''),
                          (''txHash'', JNull), (''networkId'', JNull)]\<rparr>, [])"
    by (simp add: settle_def static_peers_only settleError_def)
  show ?thesis using c1 c2 c3 c4 c5 by blast
qed

section \<open>Capability aggregation\<close>

text \<open>
  C10, as the code has it. \<open>aggregateSupportedKinds\<close> fetches \<^verbatim>\<open>/supported\<close> once per
  peer of the list. A peer whose fetch throws, or whose body has no array under
  \<^verbatim>\<open>kinds\<close>, contributes the empty list and the aggregation goes on; a peer whose body
  has an array there contributes it. Two descriptors are duplicates exactly when
  \<open>stringify\<close> (\<^verbatim>\<open>JSON.stringify\<close>) gives them the same text: the result is the
  concatenation of the contributions in which a descriptor is kept when no earlier one
  has its text. So no two descriptors of the result have the same text, every
  descriptor of the result is one some peer returned, and every text some peer
  returned is the text of a descriptor of the result; when all returned texts differ
  nothing is removed. With no peer, or with only empty contributions, the result is
  empty; contributions \<open>[x]\<close> and \<open>[x, y]\<close>, the texts of \<open>x\<close> and \<open>y\<close> differing, give
  \<open>[x, y]\<close>.
\<close>

theorem aggregate_supported:
  "fst (aggregateSupportedKinds fetchJson stringify peers)
     = map (\<lambda>base. normalizeUrl base @ ''/supported'') peers
   \<and> snd (aggregateSupportedKinds fetchJson stringify peers)
       = firstByKey stringify (concat (map (peerKinds fetchJson) peers))
   \<and> distinct (map stringify (snd (aggregateSupportedKinds fetchJson stringify peers)))
   \<and> set (snd (aggregateSupportedKinds fetchJson stringify peers))
       \<subseteq> (\<Union>base \<in> set peers. set (peerKinds fetchJson base))
   \<and> stringify ` set (snd (aggregateSupportedKinds fetchJson stringify peers))
       = stringify ` (\<Union>base \<in> set peers. set (peerKinds fetchJson base))
   \<and> (distinct (map stringify (concat (map (peerKinds fetchJson) peers)))
      \<longrightarrow> snd (aggregateSupportedKinds fetchJson stringify peers)
            = concat (map (peerKinds fetchJson) peers))
   \<and> (fetchJson (normalizeUrl base @ ''/supported'') = FetchThrows
      \<longrightarrow> peerKinds fetchJson base = [])
   \<and> (fetchJson (normalizeUrl base @ ''/supported'') = FetchJson j
        \<and> (\<forall>ks. getProp j ''kinds'' \<noteq> JArr ks)
      \<longrightarrow> peerKinds fetchJson base = [])
   \<and> (fetchJson (normalizeUrl base @ ''/supported'') = FetchJson j
        \<and> getProp j ''kinds'' = JArr ks
      \<longrightarrow> peerKinds fetchJson base = ks)
   \<and> aggregateSupportedKinds fetchJson stringify [] = ([], [])
   \<and> ((\<forall>base \<in> set peers. peerKinds fetchJson base = [])
      \<longrightarrow> snd (aggregateSupportedKinds fetchJson stringify peers) = [])
   \<and> (stringify x \<noteq> stringify y \<and> peerKinds fetchJson A = [x] \<and> peerKinds fetchJson B = [x, y]
      \<longrightarrow> snd (aggregateSupportedKinds fetchJson stringify [A, B]) = [x, y])"
proof (intro conjI impI)
  show "fst (aggregateSupportedKinds fetchJson stringify peers)
     = map (\<lambda>base. normalizeUrl base @ ''/supported'') peers"
    by (rule aggregate_fst)
  show f: "snd (aggregateSupportedKinds fetchJson stringify peers)
       = firstByKey stringify (concat (map (peerKinds fetchJson) peers))"
    by (rule aggregate_snd)
  show "distinct (map stringify (snd (aggregateSupportedKinds fetchJson stringify peers)))"
    unfolding f by (rule firstByKey_distinct)
  show "set (snd (aggregateSupportedKinds fetchJson stringify peers))
       \<subseteq> (\<Union>base \<in> set peers. set (peerKinds fetchJson base))"
    unfolding f using firstByKey_subset [of stringify "concat (map (peerKinds fetchJson) peers)"]
    by simp
  show "stringify ` set (snd (aggregateSupportedKinds fetchJson stringify peers))
       = stringify ` (\<Union>base \<in> set peers. set (peerKinds fetchJson base))"
    unfolding f firstByKey_keys by simp
  show "aggregateSupportedKinds fetchJson stringify [] = ([], [])"
    by (simp add: aggregateSupportedKinds_def)
next
  assume "distinct (map stringify (concat (map (peerKinds fetchJson) peers)))"
  then show "snd (aggregateSupportedKinds fetchJson stringify peers)
            = concat (map (peerKinds fetchJson) peers)"
    by (simp add: aggregate_snd firstByKey_id)
next
  assume "fetchJson (normalizeUrl base @ ''/supported'') = FetchThrows"
  then show "peerKinds fetchJson base = []" by (simp add: peerKinds_def)
next
  assume "fetchJson (normalizeUrl base @ ''/supported'') = FetchJson j
        \<and> (\<forall>ks. getProp j ''kinds'' \<noteq> JArr ks)"
  then show "peerKinds fetchJson base = []"
    by (cases "getProp j ''kinds''") (simp_all add: peerKinds_def kindsOf_def)
next
  assume "fetchJson (normalizeUrl base @ ''/supported'') = FetchJson j
        \<and> getProp j ''kinds'' = JArr ks"
  then show "peerKinds fetchJson base = ks" by (simp add: peerKinds_def kindsOf_def)
next
  assume "\<forall>base \<in> set peers. peerKinds fetchJson base = []"
  then have e: "concat (map (peerKinds fetchJson) peers) = []" by (induction peers) auto
  show "snd (aggregateSupportedKinds fetchJson stringify peers) = []"
    unfolding aggregate_snd e by simp
next
  assume "stringify x \<noteq> stringify y \<and> peerKinds fetchJson A = [x] \<and> peerKinds fetchJson B = [x, y]"
  then show "snd (aggregateSupportedKinds fetchJson stringify [A, B]) = [x, y]"
    by (auto simp: aggregate_snd)
qed

text \<open>
  Instances, with the texts of \<^verbatim>\<open>JSON.stringify\<close>: the peers \<^verbatim>\<open>http://a\<close> and
  \<^verbatim>\<open>http://b/\<close>; a body without \<^verbatim>\<open>kinds\<close>; a fetch that throws.
\<close>

theorem aggregate_supported_witness:
  "snd (aggregateSupportedKinds exampleFetch JSON_stringify [''http://a'', ''http://b/''])
     = [JObj [(''scheme'', JStr ''exact''), (''network'', JStr ''base'')],
        JObj [(''scheme'', JStr ''exact''), (''network'', JStr ''solana'')]]
   \<and> peerKinds exampleFetch ''http://c'' = []
   \<and> peerKinds exampleFetch ''http://d'' = []
   \<and> snd (aggregateSupportedKinds exampleFetch JSON_stringify [''http://c'', ''http://d'']) = []
   \<and> snd (aggregateSupportedKinds exampleFetch JSON_stringify [''http://a'', ''http://c''])
       = [JObj [(''scheme'', JStr ''exact''), (''network'', JStr ''base'')]]"
proof -
  let ?x = "JObj [(''scheme'', JStr ''exact''), (''network'', JStr ''base'')]"
  let ?y = "JObj [(''scheme'', JStr ''exact''), (''network'', JStr ''solana'')]"
  have c1: "snd (aggregateSupportedKinds exampleFetch JSON_stringify [''http://a'', ''http://b/''])
      = [?x, ?y]"
    by (rule aggregate_supported [where x = ?x and y = ?y, THEN conjunct2, THEN conjunct2,
          THEN conjunct2, THEN conjunct2, THEN conjunct2, THEN conjunct2, THEN conjunct2,
          THEN conjunct2, THEN conjunct2, THEN conjunct2, THEN conjunct2, THEN mp])
       (simp add: exampleFetch_kinds example_texts del: JSON_stringify.simps)
  have c2: "peerKinds exampleFetch ''http://c'' = []"
    by (rule aggregate_supported [where j = "JObj [(''error'', JStr ''not here'')]",
          THEN conjunct2, THEN conjunct2, THEN conjunct2, THEN conjunct2, THEN conjunct2,
          THEN conjunct2, THEN conjunct2, THEN conjunct1, THEN mp])
       (simp add: exampleFetch_kinds)
  have c3: "peerKinds exampleFetch ''http://d'' = []"
    by (rule aggregate_supported [THEN conjunct2, THEN conjunct2, THEN conjunct2, THEN conjunct2,
          THEN conjunct2, THEN conjunct2, THEN conjunct1, THEN mp])
       (simp add: exampleFetch_kinds)
  have c4: "snd (aggregateSupportedKinds exampleFetch JSON_stringify [''http://c'', ''http://d'']) = []"
    by (rule aggregate_supported [THEN conjunct2, THEN conjunct2, THEN conjunct2, THEN conjunct2,
          THEN conjunct2, THEN conjunct2, THEN conjunct2, THEN conjunct2, THEN conjunct2,
          THEN conjunct2, THEN conjunct1, THEN mp])
       (simp add: c2 c3)
  have "snd (aggregateSupportedKinds exampleFetch JSON_stringify [''http://a'', ''http://c''])
      = concat (map (peerKinds exampleFetch) [''http://a'', ''http://c''])"
    by (rule aggregate_supported [THEN conjunct2, THEN conjunct2, THEN conjunct2, THEN conjunct2,
          THEN conjunct2, THEN conjunct1, THEN mp])
       (simp add: exampleFetch_kinds c2)
  then have c5: "snd (aggregateSupportedKinds exampleFetch JSON_stringify [''http://a'', ''http://c''])
      = [?x]"
    by (simp add: exampleFetch_kinds c2)
  show ?thesis using c1 c2 c3 c4 c5 by blast
qed

text \<open>
  C10 as worded takes descriptors with the same fields and values for duplicates. The
  text of \<^verbatim>\<open>JSON.stringify\<close> follows the order of the properties: \<^verbatim>\<open>http://a\<close> lists
  \<^verbatim>\<open>{scheme: "exact", network: "base"}\<close> and \<^verbatim>\<open>http://e\<close> lists
  \<^verbatim>\<open>{network: "base", scheme: "exact"}\<close>, and the result keeps both.
\<close>

theorem aggregate_property_order_counterexample:
  "sameFields (JObj [(''scheme'', JStr ''exact''), (''network'', JStr ''base'')])
              (JObj [(''network'', JStr ''base''), (''scheme'', JStr ''exact'')])
   \<and> snd (aggregateSupportedKinds exampleFetch JSON_stringify [''http://a'', ''http://e''])
       = [JObj [(''scheme'', JStr ''exact''), (''network'', JStr ''base'')],
          JObj [(''network'', JStr ''base''), (''scheme'', JStr ''exact'')]]"
  by (simp add: sameFields_def aggregate_snd exampleFetch_kinds example_texts
      del: JSON_stringify.simps)

end
